theory Spec2Isabelle
  imports Main "HOL-Library.Sublist"
begin

section \<open>JavaScript values used by the service layer\<close>

text \<open>
  The service code of \<^verbatim>\<open>aiService.ts\<close> works on JavaScript strings and on values
  that come out of \<^verbatim>\<open>JSON.parse\<close>. A JavaScript string is modelled as a \<^typ>\<open>string\<close>
  whose characters stand for code units below 256. A JSON number is kept as a decimal
  \<open>m * 10^e\<close>; the binary rounding and the range of doubles are not part of the model.
\<close>

datatype json =
    JNull
  | JBool bool
  | JNum int int
  | JStr string
  | JArr "json list"
  | JObj "(string \<times> json) list"

text \<open>
  A thrown value. \<^verbatim>\<open>throw\<close> accepts every value: \<open>Error m\<close> is an \<^verbatim>\<open>Error\<close> object
  (of any subclass) with the message \<open>m\<close>, the only property of it that the code reads;
  \<open>Thrown v\<close> is a value that is not an \<^verbatim>\<open>Error\<close> object: \<^verbatim>\<open>undefined\<close> when \<open>v\<close> is
  \<open>None\<close>, and otherwise plain data (\<^verbatim>\<open>null\<close>, a boolean, a number, a string, an array or
  a plain object of such). Values whose property reads or whose conversion to a string
  run code of their own (accessors, proxies, symbols) are outside the model.
\<close>

datatype js_error = Error string | Thrown "json option"

subsection \<open>Strings\<close>

text \<open>
  \<^verbatim>\<open>String.prototype.trim\<close> and the regular expression class \<^verbatim>\<open>\s\<close> use the same
  set: tab, line feed, vertical tab, form feed, carriage return, space and the no-break
  space (the other members are code units above 255).
\<close>

definition is_ws :: "char \<Rightarrow> bool" where
  "is_ws c = (c = CHR 0x09 \<or> c = CHR 0x0A \<or> c = CHR 0x0B \<or> c = CHR 0x0C
            \<or> c = CHR 0x0D \<or> c = CHR '' '' \<or> c = CHR 0xA0)"

definition trim :: "string \<Rightarrow> string" where
  "trim s = rev (dropWhile is_ws (rev (dropWhile is_ws s)))"

definition startsWith :: "string \<Rightarrow> string \<Rightarrow> bool" where
  "startsWith s p = (take (length p) s = p)"

text \<open>\<^verbatim>\<open>s.split(c)\<close> for a one-character separator; the result is never empty.\<close>

fun split_on :: "char \<Rightarrow> string \<Rightarrow> string list" where
  "split_on c [] = [[]]"
| "split_on c (x # xs) =
     (if x = c then [] # split_on c xs
      else (case split_on c xs of
              [] \<Rightarrow> [[x]]
            | y # ys \<Rightarrow> (x # y) # ys))"

text \<open>Decimal digits of a natural number (\<^verbatim>\<open>String(n)\<close>).\<close>

definition digit_char :: "nat \<Rightarrow> char" where
  "digit_char d = char_of (48 + d)"

fun nat_str :: "nat \<Rightarrow> string" where
  "nat_str n = (if n < 10 then [digit_char n] else nat_str (n div 10) @ [digit_char (n mod 10)])"

declare nat_str.simps [simp del]

text \<open>
  \<^verbatim>\<open>Number.prototype.toString\<close> of the number \<open>m * 10^e\<close>. \<open>s\<close> is the digit string of
  \<open>m\<close> without its trailing zeros, \<open>k\<close> its length and \<open>n\<close> the position of the decimal
  point counted from the first digit, so that the value is \<open>0.s * 10^n\<close>. The digits are
  written out plainly when \<open>-6 < n \<le> 21\<close> and in exponent notation otherwise. (The
  digits of \<open>m\<close> are taken as they are: for more than fifteen significant digits the
  engine prints the digits of the nearest double instead.)
\<close>

definition num_str :: "int \<Rightarrow> int \<Rightarrow> string" where
  "num_str m e =
     (let ds = nat_str (nat \<bar>m\<bar>);
          s = rev (dropWhile (\<lambda>c. c = CHR ''0'') (rev ds));
          k = int (length s);
          n = int (length ds) + e
      in (case s of
            [] \<Rightarrow> ''0''
          | c # r \<Rightarrow>
              (if m < 0 then ''-'' else [])
              @ (if k \<le> n \<and> n \<le> 21 then c # r @ replicate (nat (n - k)) (CHR ''0'')
                 else if 0 < n \<and> n \<le> 21 then c # take (nat n - 1) r @ CHR ''.'' # drop (nat n - 1) r
                 else if - 6 < n \<and> n \<le> 0 then ''0.'' @ replicate (nat (- n)) (CHR ''0'') @ c # r
                 else c # (if r = [] then [] else CHR ''.'' # r)
                      @ (if n < 1 then ''e-'' @ nat_str (nat (1 - n))
                         else ''e+'' @ nat_str (nat (n - 1))))))"

subsection \<open>\<^verbatim>\<open>JSON.stringify\<close> without indentation\<close>

definition hex_digit :: "nat \<Rightarrow> char" where
  "hex_digit d = (if d < 10 then char_of (48 + d) else char_of (87 + d))"

definition quote_char :: "char \<Rightarrow> string" where
  "quote_char c =
     (if c = CHR 0x22 then [CHR 0x5C, CHR 0x22]
      else if c = CHR 0x5C then [CHR 0x5C, CHR 0x5C]
      else if c = CHR 0x08 then [CHR 0x5C, CHR ''b'']
      else if c = CHR 0x0C then [CHR 0x5C, CHR ''f'']
      else if c = CHR 0x0A then [CHR 0x5C, CHR ''n'']
      else if c = CHR 0x0D then [CHR 0x5C, CHR ''r'']
      else if c = CHR 0x09 then [CHR 0x5C, CHR ''t'']
      else if (of_char c :: nat) < 32
        then [CHR 0x5C, CHR ''u'', CHR ''0'', CHR ''0'',
              hex_digit ((of_char c :: nat) div 16), hex_digit ((of_char c :: nat) mod 16)]
      else [c])"

definition quote :: "string \<Rightarrow> string" where
  "quote s = CHR 0x22 # concat (map quote_char s) @ [CHR 0x22]"

fun stringify :: "json \<Rightarrow> string"
  and stringify_elems :: "json list \<Rightarrow> string"
  and stringify_members :: "(string \<times> json) list \<Rightarrow> string" where
  "stringify JNull = ''null''"
| "stringify (JBool b) = (if b then ''true'' else ''false'')"
| "stringify (JNum m e) = num_str m e"
| "stringify (JStr s) = quote s"
| "stringify (JArr xs) = CHR ''['' # stringify_elems xs @ '']''"
| "stringify (JObj ms) = CHR ''{'' # stringify_members ms @ ''}''"
| "stringify_elems [] = []"
| "stringify_elems [x] = stringify x"
| "stringify_elems (x # y # ys) = stringify x @ CHR '','' # stringify_elems (y # ys)"
| "stringify_members [] = []"
| "stringify_members [(k, v)] = quote k @ CHR '':'' # stringify v"
| "stringify_members ((k, v) # m # ms) =
     quote k @ CHR '':'' # stringify v @ CHR '','' # stringify_members (m # ms)"

subsection \<open>Truthiness and property access\<close>

text \<open>
  \<^verbatim>\<open>undefined\<close> is \<open>None\<close> in an optional value. The falsy values are
  \<^verbatim>\<open>undefined\<close>, \<^verbatim>\<open>null\<close>, \<^verbatim>\<open>false\<close>, \<^verbatim>\<open>0\<close> and the empty string.
\<close>

fun truthy :: "json \<Rightarrow> bool" where
  "truthy JNull = False"
| "truthy (JBool b) = b"
| "truthy (JNum m e) = (m \<noteq> 0)"
| "truthy (JStr s) = (s \<noteq> [])"
| "truthy (JArr xs) = True"
| "truthy (JObj ms) = True"

fun truthy_opt :: "json option \<Rightarrow> bool" where
  "truthy_opt None = False"
| "truthy_opt (Some v) = truthy v"

text \<open>
  \<^verbatim>\<open>v.name\<close> for a name that no prototype defines, on a value other than \<^verbatim>\<open>null\<close>:
  an object yields the member or \<^verbatim>\<open>undefined\<close>, every other value yields
  \<^verbatim>\<open>undefined\<close>. Reading a property of \<^verbatim>\<open>null\<close> or of \<^verbatim>\<open>undefined\<close> throws a
  \<^verbatim>\<open>TypeError\<close>, whose message is the engine's; the functions below that can reach such
  a read say so with \<open>null_read\<close> and \<open>undefined_read\<close>.
\<close>

fun field :: "json \<Rightarrow> string \<Rightarrow> json option" where
  "field (JObj ms) name = map_of ms name"
| "field v name = None"

definition null_read :: "string \<Rightarrow> js_error" where
  "null_read name =
     Error (''Cannot read properties of null (reading '' @ CHR 0x27 # name @ [CHR 0x27, CHR '')''])"


text \<open>\<^verbatim>\<open>v[0]\<close> on a value other than \<^verbatim>\<open>null\<close>: the first element of an array, the member
  \<^verbatim>\<open>"0"\<close> of an object, the first character of a string.\<close>

fun item0 :: "json \<Rightarrow> json option" where
  "item0 (JArr xs) = (case xs of [] \<Rightarrow> None | x # _ \<Rightarrow> Some x)"
| "item0 (JObj ms) = map_of ms ''0''"
| "item0 (JStr s) = (case s of [] \<Rightarrow> None | c # _ \<Rightarrow> Some (JStr [c]))"
| "item0 v = None"

text \<open>Optional chaining \<^verbatim>\<open>v?.name\<close> on a possibly undefined or null value.\<close>

definition opt_field :: "json option \<Rightarrow> string \<Rightarrow> json option" where
  "opt_field v name = (case v of None \<Rightarrow> None | Some w \<Rightarrow> field w name)"

section \<open>Settings and results\<close>

record custom_config =
  endpoint :: "string option"
  headers :: "string option"
  body :: "string option"

record app_settings =
  provider :: string
  apiKey :: string
  modelName :: string
  baseUrl :: "string option"
  language :: string
  customConfig :: "custom_config option"
  activeBackendConfigId :: "string option"
  usePythonBackend :: bool
  pythonBackendUrl :: string

record source =
  uri :: string
  title :: string

section \<open>The cloud SDK adapter \<^verbatim>\<open>callGoogleGemini\<close>\<close>

text \<open>
  What the adapter reads of a streamed chunk: \<^verbatim>\<open>chunk.text\<close> and the list
  \<^verbatim>\<open>chunk.candidates?.[0]?.groundingMetadata?.groundingChunks\<close>, of whose entries it reads
  \<^verbatim>\<open>gc.web?.uri\<close> and \<^verbatim>\<open>gc.web?.title\<close>.
\<close>

record grounding_chunk =
  web_uri :: "string option"
  web_title :: "string option"

record gen_chunk =
  chunk_text :: "string option"
  groundingChunks :: "grounding_chunk list option"

text \<open>A JavaScript \<^verbatim>\<open>Map\<close> as the list of its entries in insertion order:
  \<^verbatim>\<open>set\<close> on a key that is present replaces the value and keeps the position.\<close>

fun map_set :: "'k \<Rightarrow> 'v \<Rightarrow> ('k \<times> 'v) list \<Rightarrow> ('k \<times> 'v) list" where
  "map_set k v [] = [(k, v)]"
| "map_set k v ((k', v') # m) =
     (if k' = k then (k', v) # m else (k', v') # map_set k v m)"

definition new_Map :: "('k \<times> 'v) list \<Rightarrow> ('k \<times> 'v) list" where
  "new_Map entries = foldl (\<lambda>m (k, v). map_set k v m) [] entries"

text \<open>\<^verbatim>\<open>Array.from(new Map(allSources.map(item => [item.uri, item])).values())\<close>\<close>

definition uniqueSources :: "source list \<Rightarrow> source list" where
  "uniqueSources allSources = map snd (new_Map (map (\<lambda>item. (uri item, item)) allSources))"

definition nonempty :: "string option \<Rightarrow> bool" where
  "nonempty s = (case s of None \<Rightarrow> False | Some t \<Rightarrow> t \<noteq> [])"

text \<open>The \<^verbatim>\<open>forEach\<close> over the grounding chunks of one streamed chunk.\<close>

fun collect_sources :: "source list \<Rightarrow> grounding_chunk list \<Rightarrow> source list" where
  "collect_sources acc [] = acc"
| "collect_sources acc (gc # gcs) =
     collect_sources
       (if nonempty (web_uri gc) \<and> nonempty (web_title gc)
        then acc @ [\<lparr>uri = the (web_uri gc), title = the (web_title gc)\<rparr>]
        else acc) gcs"

text \<open>The body of the \<^verbatim>\<open>for await\<close> loop: the state is the accumulated text, the
  sources collected so far and the fragments handed to \<^verbatim>\<open>onStream\<close> (when there is one).\<close>

fun gemini_loop :: "string \<times> source list \<times> string list \<Rightarrow> gen_chunk list
    \<Rightarrow> string \<times> source list \<times> string list" where
  "gemini_loop st [] = st"
| "gemini_loop (fullText, allSources, deltas) (chunk # rest) =
     gemini_loop
       ((if nonempty (chunk_text chunk) then fullText @ the (chunk_text chunk) else fullText),
        (case groundingChunks chunk of None \<Rightarrow> allSources
         | Some gcs \<Rightarrow> collect_sources allSources gcs),
        (if nonempty (chunk_text chunk) then deltas @ [the (chunk_text chunk)] else deltas))
       rest"

text \<open>
  The SDK is given by what its stream delivers: the chunks, then either the end of the
  stream or a failure (a failure before the first chunk is a failed call).
  \<open>env_key\<close> is \<^verbatim>\<open>process.env.API_KEY\<close>, \<open>onStream\<close> says whether the caller passed
  the callback. The result is paired with the calls made to \<^verbatim>\<open>onStream\<close>.
\<close>

definition callGoogleGemini :: "app_settings \<Rightarrow> string option \<Rightarrow> bool
    \<Rightarrow> gen_chunk list \<times> js_error option
    \<Rightarrow> (js_error + string \<times> source list) \<times> string list" where
  "callGoogleGemini settings env_key onStream sdk =
     (if apiKey settings = [] \<and> \<not> nonempty env_key
      then (Inl (Error ''API Key is missing. Please set it in settings.''), [])
      else (case gemini_loop ([], [], []) (fst sdk) of
              (fullText, allSources, deltas) \<Rightarrow>
                (case snd sdk of
                   Some e \<Rightarrow> (Inl e, if onStream then deltas else [])
                 | None \<Rightarrow> (Inr (fullText, uniqueSources allSources),
                            if onStream then deltas else []))))"

section \<open>The template resolver \<^verbatim>\<open>resolveTemplate\<close>\<close>

text \<open>
  \<^verbatim>\<open>result.replace(re, repl)\<close> with a string \<open>repl\<close> does not insert \<open>repl\<close> as it is:
  the patterns \<^verbatim>\<open>$$\<close>, \<^verbatim>\<open>$&\<close>, \<^verbatim>\<open>$`\<close> and \<^verbatim>\<open>$'\<close> in it stand for a dollar sign, the
  matched text, the text before the match and the text after it. \<open>cap\<close> is the first
  group of an expression that has one group, for which \<^verbatim>\<open>$1\<close> and \<^verbatim>\<open>$01\<close> stand. The
  expressions built by \<^verbatim>\<open>newRP\<close> have no groups (\<open>cap\<close> is \<open>None\<close>), so there
  \<^verbatim>\<open>$1\<close> stays as it is, and \<^verbatim>\<open>$<name>\<close> always does.
\<close>

fun expand :: "string option \<Rightarrow> string \<Rightarrow> string \<Rightarrow> string \<Rightarrow> string \<Rightarrow> string" where
  "expand cap matched lead trail [] = []"
| "expand cap matched lead trail [c] = [c]"
| "expand cap matched lead trail (c # d # r) =
     (if c = CHR ''$'' \<and> d = CHR ''$'' then CHR ''$'' # expand cap matched lead trail r
      else if c = CHR ''$'' \<and> d = CHR ''&'' then matched @ expand cap matched lead trail r
      else if c = CHR ''$'' \<and> d = CHR 0x60 then lead @ expand cap matched lead trail r
      else if c = CHR ''$'' \<and> d = CHR 0x27 then trail @ expand cap matched lead trail r
      else if c = CHR ''$'' \<and> d = CHR ''1'' \<and> cap \<noteq> None
        then the cap @ expand cap matched lead trail r
      else if c = CHR ''$'' \<and> d = CHR ''0'' \<and> cap \<noteq> None \<and> r \<noteq> [] \<and> hd r = CHR ''1''
        then the cap @ expand cap matched lead trail (tl r)
      else c # expand cap matched lead trail (d # r))"

text \<open>
  \<^verbatim>\<open>newRP(str)\<close> escapes every metacharacter of \<open>str\<close>, so the expression matches \<open>str\<close>
  literally, and carries the flag \<^verbatim>\<open>g\<close>: every occurrence is replaced, scanning from the
  left and resuming after each match. The pattern is \<open>p # ps\<close> (the templates' patterns
  start with a dollar sign or a quote); \<open>lead\<close> is the part of the subject already
  passed.
\<close>

fun replace_from :: "char \<Rightarrow> string \<Rightarrow> string \<Rightarrow> string \<Rightarrow> string \<Rightarrow> string" where
  "replace_from p ps repl lead [] = []"
| "replace_from p ps repl lead (c # cs) =
     (if c = p \<and> take (length ps) cs = ps
      then expand None (p # ps) lead (drop (length ps) cs) repl
             @ replace_from p ps repl (lead @ p # ps) (drop (length ps) cs)
      else c # replace_from p ps repl (lead @ [c]) cs)"

definition replace_newRP :: "string \<Rightarrow> string \<Rightarrow> string \<Rightarrow> string" where
  "replace_newRP pat repl s = (case pat of [] \<Rightarrow> s | p # ps \<Rightarrow> replace_from p ps repl [] s)"

text \<open>\<^verbatim>\<open>typeof val === 'object'\<close> holds of objects, arrays and \<^verbatim>\<open>null\<close>.\<close>

fun is_object :: "json \<Rightarrow> bool" where
  "is_object JNull = True"
| "is_object (JArr xs) = True"
| "is_object (JObj ms) = True"
| "is_object v = False"

text \<open>\<^verbatim>\<open>String(val)\<close> of a value that is not an object.\<close>

fun String_of :: "json \<Rightarrow> string" where
  "String_of (JStr s) = s"
| "String_of (JBool b) = (if b then ''true'' else ''false'')"
| "String_of (JNum m e) = num_str m e"
| "String_of v = stringify v"

text \<open>One round of the \<^verbatim>\<open>forEach\<close> over the keys.\<close>

definition subst_key :: "string \<Rightarrow> json \<Rightarrow> string \<Rightarrow> string" where
  "subst_key key val result =
     (let placeholder = CHR ''$'' # key in
      if is_object val then
        (let jsonVal = stringify val;
             r1 = replace_newRP (CHR 0x22 # placeholder @ [CHR 0x22]) jsonVal result;
             r2 = replace_newRP (CHR 0x27 # placeholder @ [CHR 0x27]) jsonVal r1
         in replace_newRP placeholder jsonVal r2)
      else replace_newRP placeholder (String_of val) result)"

text \<open>The variables are the entries of \<^verbatim>\<open>vars\<close> in the order of \<^verbatim>\<open>Object.keys\<close>.\<close>

fun resolveTemplate :: "string \<Rightarrow> (string \<times> json) list \<Rightarrow> string" where
  "resolveTemplate templateStr [] = templateStr"
| "resolveTemplate templateStr ((key, val) # vars) =
     resolveTemplate (subst_key key val templateStr) vars"

section \<open>\<^verbatim>\<open>JSON.parse\<close>\<close>

text \<open>
  The adapters call \<^verbatim>\<open>JSON.parse\<close> on text they receive. The functions of the service
  take the parser as a parameter \<open>parse\<close> (\<open>None\<close> is the \<^verbatim>\<open>SyntaxError\<close>), so that
  what is proved of them holds of every parser. \<open>JSON_parse\<close> below follows the JSON
  grammar and is the parser at which concrete inputs are evaluated. Its limit is that of
  the string model: a \<^verbatim>\<open>\uXXXX\<close> escape above \<^verbatim>\<open>\u00FF\<close> names a code unit that a
  \<^typ>\<open>string\<close> does not have, and is refused.
\<close>

definition json_ws :: "char \<Rightarrow> bool" where
  "json_ws c = (c = CHR '' '' \<or> c = CHR 0x09 \<or> c = CHR 0x0A \<or> c = CHR 0x0D)"

definition skip_ws :: "string \<Rightarrow> string" where
  "skip_ws s = dropWhile json_ws s"

definition is_digit :: "char \<Rightarrow> bool" where
  "is_digit c = (48 \<le> (of_char c :: nat) \<and> (of_char c :: nat) \<le> 57)"

definition digits_val :: "string \<Rightarrow> nat" where
  "digits_val ds = foldl (\<lambda>n c. 10 * n + ((of_char c :: nat) - 48)) 0 ds"

definition hex_val :: "char \<Rightarrow> nat option" where
  "hex_val c =
     (let n = (of_char c :: nat) in
      if 48 \<le> n \<and> n \<le> 57 then Some (n - 48)
      else if 65 \<le> n \<and> n \<le> 70 then Some (n - 55)
      else if 97 \<le> n \<and> n \<le> 102 then Some (n - 87)
      else None)"

definition unescape :: "char \<Rightarrow> char option" where
  "unescape e =
     (if e = CHR 0x22 \<or> e = CHR 0x5C \<or> e = CHR ''/'' then Some e
      else if e = CHR ''b'' then Some (CHR 0x08)
      else if e = CHR ''f'' then Some (CHR 0x0C)
      else if e = CHR ''n'' then Some (CHR 0x0A)
      else if e = CHR ''r'' then Some (CHR 0x0D)
      else if e = CHR ''t'' then Some (CHR 0x09)
      else None)"

definition push_char :: "char \<Rightarrow> (string \<times> string) option \<Rightarrow> (string \<times> string) option" where
  "push_char c r = (case r of None \<Rightarrow> None | Some (s, rest) \<Rightarrow> Some (c # s, rest))"

text \<open>The characters of a string literal after its opening quote, and what follows.\<close>

fun parse_str :: "string \<Rightarrow> (string \<times> string) option" where
  "parse_str [] = None"
| "parse_str (c # cs) =
     (if c = CHR 0x22 then Some ([], cs)
      else if c = CHR 0x5C then
        (case cs of
           [] \<Rightarrow> None
         | e # r \<Rightarrow>
            (if e = CHR ''u'' then
               (case r of
                  h1 # h2 # h3 # h4 # r' \<Rightarrow>
                    (case (hex_val h1, hex_val h2, hex_val h3, hex_val h4) of
                       (Some a, Some b, Some c', Some d) \<Rightarrow>
                         (if a = 0 \<and> b = 0 then push_char (char_of (16 * c' + d)) (parse_str r')
                          else None)
                     | _ \<Rightarrow> None)
                | _ \<Rightarrow> None)
             else (case unescape e of
                     None \<Rightarrow> None
                   | Some ch \<Rightarrow> push_char ch (parse_str r))))
      else if (of_char c :: nat) < 32 then None
      else push_char c (parse_str cs))"

text \<open>A number: \<^verbatim>\<open>-? (0 | [1-9][0-9]*) (. [0-9]+)? ([eE] [+-]? [0-9]+)?\<close>.\<close>

definition parse_exp :: "string \<Rightarrow> (int \<times> string) option" where
  "parse_exp s =
     (case s of
        [] \<Rightarrow> Some (0, s)
      | c # r \<Rightarrow>
         (if c = CHR ''e'' \<or> c = CHR ''E'' then
            (let neg = (r \<noteq> [] \<and> hd r = CHR ''-'');
                 r1 = (if r \<noteq> [] \<and> (hd r = CHR ''-'' \<or> hd r = CHR ''+'') then tl r else r);
                 ds = takeWhile is_digit r1
             in if ds = [] then None
                else Some ((if neg then - int (digits_val ds) else int (digits_val ds)),
                           dropWhile is_digit r1))
          else Some (0, s)))"

definition parse_frac :: "string \<Rightarrow> (string \<times> string) option" where
  "parse_frac s =
     (case s of
        [] \<Rightarrow> Some ([], s)
      | c # r \<Rightarrow>
         (if c = CHR ''.'' then
            (if takeWhile is_digit r = [] then None
             else Some (takeWhile is_digit r, dropWhile is_digit r))
          else Some ([], s)))"

definition parse_number :: "string \<Rightarrow> (json \<times> string) option" where
  "parse_number s =
     (let neg = (s \<noteq> [] \<and> hd s = CHR ''-'');
          s1 = (if neg then tl s else s);
          ds = (if s1 \<noteq> [] \<and> hd s1 = CHR ''0'' then ''0'' else takeWhile is_digit s1);
          r1 = drop (length ds) s1
      in if ds = [] then None
         else (case parse_frac r1 of
                 None \<Rightarrow> None
               | Some (fd, r2) \<Rightarrow>
                  (case parse_exp r2 of
                     None \<Rightarrow> None
                   | Some (ex, r3) \<Rightarrow>
                      Some (JNum ((if neg then - 1 else 1) * int (digits_val (ds @ fd)))
                                 (ex - int (length fd)), r3))))"

text \<open>
  The members of an object are listed in the order in which JavaScript enumerates its
  keys: the keys that are array indices (canonical decimal numbers below \<open>2^32 - 1\<close>) in
  ascending order, then the others in the order of their first appearance. A key that
  appears twice keeps its first position and its last value.
\<close>

definition index_val :: "string \<Rightarrow> int" where
  "index_val k = foldl (\<lambda>n c. 10 * n + ((of_char c :: int) - 48)) 0 k"

definition is_index :: "string \<Rightarrow> bool" where
  "is_index k = (k \<noteq> [] \<and> list_all is_digit k \<and> (k = ''0'' \<or> hd k \<noteq> CHR ''0'')
                \<and> index_val k < 4294967295)"

definition own_keys_order :: "(string \<times> json) list \<Rightarrow> (string \<times> json) list" where
  "own_keys_order ms =
     sort_key (\<lambda>m. index_val (fst m)) (filter (\<lambda>m. is_index (fst m)) ms)
     @ filter (\<lambda>m. \<not> is_index (fst m)) ms"

definition make_object :: "(string \<times> json) list \<Rightarrow> json" where
  "make_object ms = JObj (own_keys_order (new_Map ms))"

text \<open>
  Values, the elements of an array after its opening bracket, and the members of an
  object after its opening brace. The first argument bounds the depth of the calls; two
  units for each character of the text are enough, since no call is made twice at the
  same position without a character read in between.
\<close>

fun parse_value :: "nat \<Rightarrow> string \<Rightarrow> (json \<times> string) option"
  and parse_elems :: "nat \<Rightarrow> string \<Rightarrow> (json list \<times> string) option"
  and parse_members :: "nat \<Rightarrow> string \<Rightarrow> ((string \<times> json) list \<times> string) option" where
  "parse_value 0 s = None"
| "parse_value (Suc n) s =
     (case skip_ws s of
        [] \<Rightarrow> None
      | c # r \<Rightarrow>
         (if c = CHR ''{'' then
            (if skip_ws r \<noteq> [] \<and> hd (skip_ws r) = CHR ''}'' then Some (JObj [], tl (skip_ws r))
             else (case parse_members n r of
                     None \<Rightarrow> None
                   | Some (ms, r') \<Rightarrow> Some (make_object ms, r')))
          else if c = CHR ''['' then
            (if skip_ws r \<noteq> [] \<and> hd (skip_ws r) = CHR '']'' then Some (JArr [], tl (skip_ws r))
             else (case parse_elems n r of
                     None \<Rightarrow> None
                   | Some (vs, r') \<Rightarrow> Some (JArr vs, r')))
          else if c = CHR 0x22 then
            (case parse_str r of None \<Rightarrow> None | Some (str, r') \<Rightarrow> Some (JStr str, r'))
          else if take 4 (c # r) = ''true'' then Some (JBool True, drop 4 (c # r))
          else if take 5 (c # r) = ''false'' then Some (JBool False, drop 5 (c # r))
          else if take 4 (c # r) = ''null'' then Some (JNull, drop 4 (c # r))
          else parse_number (c # r)))"
| "parse_elems 0 s = None"
| "parse_elems (Suc n) s =
     (case parse_value n s of
        None \<Rightarrow> None
      | Some (v, r) \<Rightarrow>
         (case skip_ws r of
            [] \<Rightarrow> None
          | c # r' \<Rightarrow>
             (if c = CHR '','' then
                (case parse_elems n r' of
                   None \<Rightarrow> None
                 | Some (vs, r'') \<Rightarrow> Some (v # vs, r''))
              else if c = CHR '']'' then Some ([v], r')
              else None)))"
| "parse_members 0 s = None"
| "parse_members (Suc n) s =
     (case skip_ws s of
        [] \<Rightarrow> None
      | q # r \<Rightarrow>
         (if q \<noteq> CHR 0x22 then None
          else (case parse_str r of
                  None \<Rightarrow> None
                | Some (k, r1) \<Rightarrow>
                   (case skip_ws r1 of
                      [] \<Rightarrow> None
                    | c # r2 \<Rightarrow>
                       (if c \<noteq> CHR '':'' then None
                        else (case parse_value n r2 of
                                None \<Rightarrow> None
                              | Some (v, r3) \<Rightarrow>
                                 (case skip_ws r3 of
                                    [] \<Rightarrow> None
                                  | d # r4 \<Rightarrow>
                                     (if d = CHR '','' then
                                        (case parse_members n r4 of
                                           None \<Rightarrow> None
                                         | Some (ms, r5) \<Rightarrow> Some ((k, v) # ms, r5))
                                      else if d = CHR ''}'' then Some ([(k, v)], r4)
                                      else None))))))))"

definition JSON_parse :: "string \<Rightarrow> json option" where
  "JSON_parse s =
     (case parse_value (Suc (Suc (length s + length s))) s of
        None \<Rightarrow> None
      | Some (v, r) \<Rightarrow> if skip_ws r = [] then Some v else None)"

section \<open>The custom API adapter \<^verbatim>\<open>callCustomLLM\<close>\<close>

text \<open>
  \<^verbatim>\<open>fetch\<close> is a parameter: it maps the request to a rejection or to a response, of which
  the adapter reads \<^verbatim>\<open>ok\<close>, \<^verbatim>\<open>status\<close>, \<^verbatim>\<open>statusText\<close> and the body, as text with
  \<^verbatim>\<open>response.text()\<close> or as a value with \<^verbatim>\<open>response.json()\<close>. The latter parses the text
  of the body and throws a \<^verbatim>\<open>SyntaxError\<close> when it is not JSON; the message of that error
  is the engine's and depends on the text, so the response carries it as \<open>json_error\<close>.
\<close>

record http_request =
  req_url :: string
  req_method :: string
  req_headers :: json
  req_body :: string

record http_response =
  ok :: bool
  status :: nat
  statusText :: string
  body_text :: string
  json_error :: js_error

definition defaultConfig_endpoint :: string where
  "defaultConfig_endpoint = ''/chat/completions''"

definition defaultConfig_headers :: string where
  "defaultConfig_headers =
     ''{\"Content-Type\":\"application/json\",\"Authorization\":\"Bearer $apiKey\"}''"

definition defaultConfig_body :: string where
  "defaultConfig_body =
     ''{\"model\":\"$model\",\"messages\":\"$messages\",\"temperature\":0.5,\"stream\":false}''"

text \<open>\<^verbatim>\<open>custom.field || dflt\<close> with \<^verbatim>\<open>custom = settings.customConfig || {}\<close>.\<close>

definition custom_or :: "app_settings \<Rightarrow> (custom_config \<Rightarrow> string option) \<Rightarrow> string \<Rightarrow> string" where
  "custom_or settings sel dflt =
     (case customConfig settings of
        None \<Rightarrow> dflt
      | Some custom \<Rightarrow> if nonempty (sel custom) then the (sel custom) else dflt)"

definition endpointTpl :: "app_settings \<Rightarrow> string" where
  "endpointTpl settings = custom_or settings endpoint defaultConfig_endpoint"

definition headersTpl :: "app_settings \<Rightarrow> string" where
  "headersTpl settings = custom_or settings headers defaultConfig_headers"

definition bodyTpl :: "app_settings \<Rightarrow> string" where
  "bodyTpl settings = custom_or settings body defaultConfig_body"

text \<open>\<^verbatim>\<open>s.replace(/\/$/, '')\<close>: one trailing slash is removed.\<close>

definition strip_slash :: "string \<Rightarrow> string" where
  "strip_slash s = (if s \<noteq> [] \<and> last s = CHR ''/'' then butlast s else s)"

definition resolve_url :: "app_settings \<Rightarrow> string" where
  "resolve_url settings =
     (if startsWith (endpointTpl settings) ''http'' then endpointTpl settings
      else strip_slash (the (baseUrl settings))
           @ (if startsWith (endpointTpl settings) ''/'' then endpointTpl settings
              else CHR ''/'' # endpointTpl settings))"

definition variables :: "app_settings \<Rightarrow> string \<Rightarrow> string \<Rightarrow> (string \<times> json) list" where
  "variables settings prompt systemInstruction =
     [(''model'', JStr (modelName settings)),
      (''apiKey'', JStr (apiKey settings)),
      (''prompt'', JStr (systemInstruction @ [CHR 0x0A, CHR 0x0A] @ prompt)),
      (''system'', JStr systemInstruction),
      (''user_prompt'', JStr prompt),
      (''messages'', JArr [JObj [(''role'', JStr ''system''), (''content'', JStr systemInstruction)],
                           JObj [(''role'', JStr ''user''), (''content'', JStr prompt)]])]"

text \<open>
  The reply text of a response body \<open>data\<close>. \<^verbatim>\<open>data.choices\<close> throws when \<open>data\<close> is
  \<^verbatim>\<open>null\<close>; the later reads are on values that have been tested. \<open>text\<close> starts as the
  empty string and an assignment may store \<^verbatim>\<open>undefined\<close> in it.
\<close>

definition pick_text :: "json \<Rightarrow> json option" where
  "pick_text data =
     (if truthy_opt (field data ''choices'') \<and> truthy_opt (item0 (the (field data ''choices''))) then
        (let choice = the (item0 (the (field data ''choices''))) in
         if truthy_opt (field choice ''message'') then field (the (field choice ''message'')) ''content''
         else if truthy_opt (field choice ''text'') then field choice ''text''
         else Some (JStr []))
      else if truthy_opt (field data ''content'') then field data ''content''
      else if truthy_opt (field data ''response'') then field data ''response''
      else Some (JStr []))"

definition extract_text :: "json \<Rightarrow> js_error + json" where
  "extract_text data =
     (if data = JNull then Inl (null_read ''choices'')
      else if truthy_opt (pick_text data) then Inr (the (pick_text data))
      else Inr (JStr (stringify data)))"

text \<open>
  The result of a call is the returned value or the thrown error, the requests that were
  sent, and the arguments \<^verbatim>\<open>onStream\<close> was called with. \<open>onStream\<close> says whether the
  caller passed the callback.
\<close>

definition callCustomLLM ::
  "(string \<Rightarrow> json option) \<Rightarrow> (http_request \<Rightarrow> js_error + http_response)
    \<Rightarrow> app_settings \<Rightarrow> string \<Rightarrow> string \<Rightarrow> bool
    \<Rightarrow> (js_error + json) \<times> http_request list \<times> json list" where
  "callCustomLLM parse fetch settings prompt systemInstruction onStream =
     (if \<not> nonempty (baseUrl settings)
      then (Inl (Error ''Base URL required for custom provider''), [], [])
      else
        (case parse (resolveTemplate (headersTpl settings)
                       (variables settings prompt systemInstruction)) of
           None \<Rightarrow> (Inl (Error ''Invalid Headers Configuration''), [], [])
         | Some hdrs \<Rightarrow>
            (let bodyStr = resolveTemplate (bodyTpl settings)
                             (variables settings prompt systemInstruction) in
             case parse bodyStr of
               None \<Rightarrow> (Inl (Error ''Invalid Body Template JSON''), [], [])
             | Some _ \<Rightarrow>
                (let req = \<lparr>req_url = resolve_url settings, req_method = ''POST'',
                            req_headers = hdrs, req_body = bodyStr\<rparr> in
                 case fetch req of
                   Inl e \<Rightarrow> (Inl e, [req], [])
                 | Inr response \<Rightarrow>
                    (if \<not> ok response
                     then (Inl (Error (''Custom API Error: '' @ resolve_url settings
                                       @ '' returned '' @ nat_str (status response)
                                       @ '' - '' @ body_text response)), [req], [])
                     else (case parse (body_text response) of
                             None \<Rightarrow> (Inl (json_error response), [req], [])
                           | Some data \<Rightarrow>
                              (case extract_text data of
                                 Inl e \<Rightarrow> (Inl e, [req], [])
                               | Inr text \<Rightarrow>
                                  (Inr text, [req], if onStream then [text] else []))))))))"

section \<open>The orchestration stream adapter \<^verbatim>\<open>callPythonBackendStream\<close>\<close>

text \<open>
  The two callbacks. \<^verbatim>\<open>onStream\<close> receives \<^verbatim>\<open>data.chunk || ''\<close>, a value of any type;
  \<^verbatim>\<open>onStatus\<close> receives an object with \<^verbatim>\<open>node\<close>, \<^verbatim>\<open>displayText\<close>, \<^verbatim>\<open>status\<close> and, for a
  \<^verbatim>\<open>meta_update\<close>, \<^verbatim>\<open>details\<close>.
\<close>

record agent_status =
  node :: "json option"
  displayText :: json
  status_of :: json
  details :: "json option"

datatype callback = Delta json | Status agent_status

text \<open>\<^verbatim>\<open>fullText += text\<close> appends \<^verbatim>\<open>String(text)\<close>: an array is the list of its elements
  separated by commas, with nothing for \<^verbatim>\<open>null\<close>, and an object is \<^verbatim>\<open>[object Object]\<close>.\<close>

fun to_String :: "json \<Rightarrow> string"
  and join_elems :: "json list \<Rightarrow> string" where
  "to_String JNull = ''null''"
| "to_String (JBool b) = (if b then ''true'' else ''false'')"
| "to_String (JNum m e) = num_str m e"
| "to_String (JStr s) = s"
| "to_String (JArr xs) = join_elems xs"
| "to_String (JObj ms) = ''[object Object]''"
| "join_elems [] = []"
| "join_elems [x] = (if x = JNull then [] else to_String x)"
| "join_elems (x # y # ys) = (if x = JNull then [] else to_String x) @ CHR '','' # join_elems (y # ys)"

text \<open>\<^verbatim>\<open>v || dflt\<close> on a possibly undefined value.\<close>

definition or_else :: "json option \<Rightarrow> json \<Rightarrow> json" where
  "or_else v dflt = (if truthy_opt v then the v else dflt)"

text \<open>
  The dispatch on one parsed event. The state is the accumulated text and the calls made
  so far; \<open>onStream\<close> and \<open>onStatus\<close> say whether the caller passed the callbacks. Reading
  \<^verbatim>\<open>data.type\<close> of \<^verbatim>\<open>null\<close> throws inside the \<^verbatim>\<open>try\<close>, and the event is skipped. The call
  of a callback is the last statement of its branch, after the text has been accumulated,
  so a callback that throws inside the \<^verbatim>\<open>try\<close> leaves the same state as one that returns.
\<close>

definition handle_event :: "bool \<Rightarrow> bool \<Rightarrow> string \<times> callback list \<Rightarrow> json
    \<Rightarrow> string \<times> callback list" where
  "handle_event onStream onStatus st data =
     (if data = JNull then st
      else if field data ''type'' = Some (JStr ''status_update'') \<and> onStatus then
        (fst st, snd st @ [Status
           \<lparr>node = opt_field (field data ''metadata'') ''node'',
            displayText = or_else (opt_field (field data ''metadata'') ''display_text'')
                            (JStr ''Processing...''),
            status_of = or_else (opt_field (field data ''metadata'') ''status'') (JStr ''processing''),
            details = None\<rparr>])
      else if field data ''type'' = Some (JStr ''meta_update'') \<and> onStatus then
        (fst st, snd st @ [Status
           \<lparr>node = opt_field (field data ''metadata'') ''node'',
            displayText = JStr ''Processing found data...'',
            status_of = JStr ''processing'',
            details = opt_field (field data ''metadata'') ''step_data''\<rparr>])
      else if field data ''type'' = Some (JStr ''content'') \<or> truthy_opt (field data ''chunk'') then
        (fst st @ to_String (or_else (field data ''chunk'') (JStr [])),
         snd st @ (if onStream then [Delta (or_else (field data ''chunk'') (JStr []))] else []))
      else st)"

text \<open>\<^verbatim>\<open>line.replace('data: ', '')\<close>: the first occurrence of a string is removed.\<close>

fun remove_first :: "string \<Rightarrow> string \<Rightarrow> string" where
  "remove_first pat [] = []"
| "remove_first pat (c # cs) =
     (if startsWith (c # cs) pat then drop (length pat) (c # cs) else c # remove_first pat cs)"

text \<open>The body of the \<^verbatim>\<open>for (const line of lines)\<close> loop.\<close>

definition process_line :: "(string \<Rightarrow> json option) \<Rightarrow> bool \<Rightarrow> bool
    \<Rightarrow> string \<times> callback list \<Rightarrow> string \<Rightarrow> string \<times> callback list" where
  "process_line parse onStream onStatus st line =
     (if startsWith (trim line) ''data: '' then
        (let jsonStr = trim (remove_first ''data: '' line) in
         if jsonStr = ''[DONE]'' then st
         else (case parse jsonStr of
                 None \<Rightarrow> st
               | Some data \<Rightarrow> handle_event onStream onStatus st data))
      else st)"

text \<open>
  \<^verbatim>\<open>TextDecoder.decode(value, {stream: true})\<close> is a parameter: a decoder is a machine
  that reads one byte at a time, keeps a state between bytes and between calls (the bytes
  of an unfinished character), and emits text. The bytes are of any type \<open>'b\<close>.
\<close>

fun decode :: "('d \<Rightarrow> 'b \<Rightarrow> 'd \<times> string) \<Rightarrow> 'd \<Rightarrow> 'b list \<Rightarrow> 'd \<times> string" where
  "decode step d [] = (d, [])"
| "decode step d (b # bs) =
     (case step d b of
        (d1, t1) \<Rightarrow> (case decode step d1 bs of (d2, t2) \<Rightarrow> (d2, t1 @ t2)))"

text \<open>
  The \<^verbatim>\<open>while (true)\<close> loop over the reads of the body. The state is the decoder, the
  buffer, the accumulated text and the calls made; the loop ends when the reads do.
\<close>

fun read_loop :: "('d \<Rightarrow> 'b \<Rightarrow> 'd \<times> string) \<Rightarrow> (string \<Rightarrow> json option) \<Rightarrow> bool \<Rightarrow> bool
    \<Rightarrow> 'd \<times> string \<times> string \<times> callback list \<Rightarrow> 'b list list
    \<Rightarrow> 'd \<times> string \<times> string \<times> callback list" where
  "read_loop step parse onStream onStatus st [] = st"
| "read_loop step parse onStream onStatus (d, buffer, fullText, calls) (chunk # rest) =
     (case decode step d chunk of
        (d', txt) \<Rightarrow>
          (let lines = split_on (CHR 0x0A) (buffer @ txt);
               buffer' = (if lines = [] then [] else last lines);
               st' = foldl (process_line parse onStream onStatus) (fullText, calls) (butlast lines)
           in read_loop step parse onStream onStatus (d', buffer', fst st', snd st') rest))"

text \<open>
  The response of the backend: \<^verbatim>\<open>ok\<close>, \<^verbatim>\<open>status\<close>, \<^verbatim>\<open>statusText\<close> and the body, which is
  absent or is a stream that delivers chunks of bytes and then ends or fails.
\<close>

record 'b stream_response =
  s_ok :: bool
  s_status :: nat
  s_statusText :: string
  s_body :: "('b list list \<times> js_error option) option"

definition stream_payload :: "app_settings \<Rightarrow> string \<Rightarrow> json \<Rightarrow> string \<Rightarrow> string option \<Rightarrow> json" where
  "stream_payload settings prompt workflow sessionId errorLog =
     JObj ([(''message'', JStr prompt),
            (''workflow'', workflow),
            (''session_id'', JStr sessionId),
            (''error_log'', (case errorLog of None \<Rightarrow> JNull | Some e \<Rightarrow> JStr e)),
            (''language'', JStr (language settings))]
           @ (if nonempty (activeBackendConfigId settings)
              then [(''config_id'', JStr (the (activeBackendConfigId settings)))] else []))"

definition callPythonBackendStream ::
  "('d \<Rightarrow> 'b \<Rightarrow> 'd \<times> string) \<Rightarrow> 'd \<Rightarrow> (string \<Rightarrow> json option)
    \<Rightarrow> (http_request \<Rightarrow> js_error + 'b stream_response)
    \<Rightarrow> app_settings \<Rightarrow> string \<Rightarrow> json \<Rightarrow> string \<Rightarrow> string option \<Rightarrow> bool \<Rightarrow> bool
    \<Rightarrow> (js_error + string \<times> source list) \<times> http_request list \<times> callback list" where
  "callPythonBackendStream step d0 parse fetch settings prompt workflow sessionId errorLog
      onStream onStatus =
     (if pythonBackendUrl settings = []
      then (Inl (Error ''Python Backend URL is missing.''), [], [])
      else
        (let req = \<lparr>req_url = strip_slash (pythonBackendUrl settings) @ ''/api/chat/stream'',
                    req_method = ''POST'',
                    req_headers = JObj [(''Content-Type'', JStr ''application/json'')],
                    req_body = stringify (stream_payload settings prompt workflow sessionId errorLog)\<rparr>
         in case fetch req of
              Inl e \<Rightarrow> (Inl e, [req], [])
            | Inr response \<Rightarrow>
               (if \<not> s_ok response
                then (Inl (Error (''Backend Error: '' @ nat_str (s_status response) @ '' ''
                                  @ s_statusText response)), [req], [])
                else (case s_body response of
                        None \<Rightarrow> (Inl (Error ''No response body from backend''), [req], [])
                      | Some (chunks, failure) \<Rightarrow>
                         (case read_loop step parse onStream onStatus (d0, [], [], []) chunks of
                            (d, buffer, fullText, calls) \<Rightarrow>
                              (case failure of
                                 Some e \<Rightarrow> (Inl e, [req], calls)
                               | None \<Rightarrow> (Inr (fullText, []), [req], calls)))))))"

text \<open>The same response with the whole body delivered by one read.\<close>

definition in_one_chunk :: "'b stream_response \<Rightarrow> 'b stream_response" where
  "in_one_chunk response =
     response\<lparr>s_body := (case s_body response of
                           None \<Rightarrow> None
                         | Some (chunks, failure) \<Rightarrow> Some ([concat chunks], failure))\<rparr>"

definition fetch_in_one_chunk ::
  "(http_request \<Rightarrow> js_error + 'b stream_response) \<Rightarrow> http_request \<Rightarrow> js_error + 'b stream_response" where
  "fetch_in_one_chunk fetch req =
     (case fetch req of Inl e \<Rightarrow> Inl e | Inr response \<Rightarrow> Inr (in_one_chunk response))"

section \<open>Structured extraction in \<^verbatim>\<open>sendMessageToComfyAgent\<close>\<close>

subsection \<open>The regular expressions\<close>

text \<open>
  \<^verbatim>\<open>text.match(re)\<close> and \<^verbatim>\<open>text.replace(re, \<dots>)\<close> without the flag \<^verbatim>\<open>g\<close> look for the
  leftmost position at which the expression matches. \<open>search m\<close> tries the anchored
  matcher \<open>m\<close> at each position from the left and returns the text before the match
  with the result of \<open>m\<close>: the first group and the text after the match.
\<close>

fun search :: "(string \<Rightarrow> 'a option) \<Rightarrow> string \<Rightarrow> string \<Rightarrow> (string \<times> 'a) option" where
  "search m lead [] = (case m [] of None \<Rightarrow> None | Some r \<Rightarrow> Some (lead, r))"
| "search m lead (c # cs) =
     (case m (c # cs) of
        Some r \<Rightarrow> Some (lead, r)
      | None \<Rightarrow> search m (lead @ [c]) cs)"

definition fence :: string where
  "fence = [CHR 0x60, CHR 0x60, CHR 0x60]"

text \<open>The line terminators that \<^verbatim>\<open>.\<close> does not match and before which \<^verbatim>\<open>$\<close> matches
  under the flag \<^verbatim>\<open>m\<close>.\<close>

definition is_lt :: "char \<Rightarrow> bool" where
  "is_lt c = (c = CHR 0x0A \<or> c = CHR 0x0D)"

text \<open>
  \<^verbatim>\<open>LABEL\s*(?:```(?:json)?\s*)?(\[[\s\S]*?\])(?:\s*```)?\<close> anchored at the start of \<open>s\<close>.
  Every choice is forced: the white space is taken whole, the fence and \<^verbatim>\<open>json\<close> are
  taken when they are there (without them the next character could not be the
  bracket), and the lazy group ends at the first closing bracket, after which the
  optional closing fence always succeeds.
\<close>

definition match_tagged :: "string \<Rightarrow> string \<Rightarrow> (string \<times> string) option" where
  "match_tagged label s =
     (if startsWith s label then
        (let r1 = dropWhile is_ws (drop (length label) s);
             r2 = (if startsWith r1 fence
                   then dropWhile is_ws
                          (if startsWith (drop (length fence) r1) ''json''
                           then drop (length (fence @ ''json'')) r1 else drop (length fence) r1)
                   else r1)
         in if r2 \<noteq> [] \<and> hd r2 = CHR ''['' \<and> CHR '']'' \<in> set (tl r2) then
              (let inner = takeWhile (\<lambda>c. c \<noteq> CHR '']'') (tl r2);
                   r3 = tl (dropWhile (\<lambda>c. c \<noteq> CHR '']'') (tl r2))
               in Some (CHR ''['' # inner @ '']'',
                        if startsWith (dropWhile is_ws r3) fence
                        then drop (length fence) (dropWhile is_ws r3) else r3))
            else None)
      else None)"

text \<open>\<^verbatim>\<open>SUGGESTED_ACTIONS:\s*\[(.*?)\]\<close> anchored at the start of \<open>s\<close>: the group is the
  text up to the first closing bracket, which must come before the end of the line.\<close>

definition match_actions :: "string \<Rightarrow> (string \<times> string) option" where
  "match_actions s =
     (if startsWith s ''SUGGESTED_ACTIONS:'' then
        (let r1 = dropWhile is_ws (drop (length ''SUGGESTED_ACTIONS:'') s) in
         if r1 \<noteq> [] \<and> hd r1 = CHR ''['' then
           (let cap = takeWhile (\<lambda>c. c \<noteq> CHR '']'' \<and> \<not> is_lt c) (tl r1);
                rest = dropWhile (\<lambda>c. c \<noteq> CHR '']'' \<and> \<not> is_lt c) (tl r1)
            in if rest \<noteq> [] \<and> hd rest = CHR '']'' then Some (cap, tl rest) else None)
         else None)
      else None)"

text \<open>\<^verbatim>\<open>([\s\S]*?)\s*```\<close>: the shortest text after which white space and a fence follow.\<close>

fun lazy_until_fence :: "string \<Rightarrow> (string \<times> string) option" where
  "lazy_until_fence [] = None"
| "lazy_until_fence (c # cs) =
     (if startsWith (dropWhile is_ws (c # cs)) fence
      then Some ([], drop (length fence) (dropWhile is_ws (c # cs)))
      else (case lazy_until_fence cs of
              None \<Rightarrow> None
            | Some (cap, trail) \<Rightarrow> Some (c # cap, trail)))"

text \<open>\<^verbatim>\<open>```json\s*([\s\S]*?)\s*```\<close> anchored at the start of \<open>s\<close>.\<close>

definition match_json_block :: "string \<Rightarrow> (string \<times> string) option" where
  "match_json_block s =
     (if startsWith s (fence @ ''json'')
      then lazy_until_fence (dropWhile is_ws (drop (length (fence @ ''json'')) s))
      else None)"

subsection \<open>\<^verbatim>\<open>cleanJsonString\<close>\<close>

text \<open>\<^verbatim>\<open>replace(/\/\/.*$/gm, "")\<close>: from two slashes to the end of the line. The flag says
  whether the scan is inside such a match.\<close>

fun strip_line_comments :: "bool \<Rightarrow> string \<Rightarrow> string" where
  "strip_line_comments inside [] = []"
| "strip_line_comments True (c # cs) =
     (if is_lt c then c # strip_line_comments False cs else strip_line_comments True cs)"
| "strip_line_comments False [c] = [c]"
| "strip_line_comments False (c # d # cs) =
     (if c = CHR ''/'' \<and> d = CHR ''/'' then strip_line_comments True cs
      else c # strip_line_comments False (d # cs))"

text \<open>Whether \<^verbatim>\<open>*/\<close> occurs in a text.\<close>

fun has_close :: "string \<Rightarrow> bool" where
  "has_close (c # d # cs) = ((c = CHR ''*'' \<and> d = CHR ''/'') \<or> has_close (d # cs))"
| "has_close cs = False"

text \<open>\<^verbatim>\<open>replace(/\/\*[\s\S]*?\*\//g, "")\<close>: from \<^verbatim>\<open>/*\<close> to the first \<^verbatim>\<open>*/\<close> after it, when
  there is one.\<close>

fun strip_block_comments :: "bool \<Rightarrow> string \<Rightarrow> string" where
  "strip_block_comments True (c # d # cs) =
     (if c = CHR ''*'' \<and> d = CHR ''/'' then strip_block_comments False cs
      else strip_block_comments True (d # cs))"
| "strip_block_comments False (c # d # cs) =
     (if c = CHR ''/'' \<and> d = CHR ''*'' \<and> has_close cs then strip_block_comments True cs
      else c # strip_block_comments False (d # cs))"
| "strip_block_comments True cs = []"
| "strip_block_comments False cs = cs"

text \<open>\<^verbatim>\<open>replace(/,\s*}/g, '}')\<close> and \<^verbatim>\<open>replace(/,\s*]/g, ']')\<close>: a comma followed by white
  space and the closing character is replaced by the closing character.\<close>

fun strip_trailing_commas :: "char \<Rightarrow> bool \<Rightarrow> string \<Rightarrow> string" where
  "strip_trailing_commas close inside [] = []"
| "strip_trailing_commas close True (c # cs) =
     (if c = close then c # strip_trailing_commas close False cs
      else strip_trailing_commas close True cs)"
| "strip_trailing_commas close False (c # cs) =
     (if c = CHR '','' \<and> startsWith (dropWhile is_ws cs) [close]
      then strip_trailing_commas close True cs
      else c # strip_trailing_commas close False cs)"

definition cleanJsonString :: "string \<Rightarrow> string" where
  "cleanJsonString jsonStr =
     strip_trailing_commas (CHR '']'') False
       (strip_trailing_commas (CHR ''}'') False
          (strip_block_comments False (strip_line_comments False jsonStr)))"

subsection \<open>The four extractions\<close>

record workflow_issue =
  issue_id :: string
  nodeId :: json
  severity :: json
  message :: json
  fixSuggestion :: "json option"

text \<open>
  The callback of \<^verbatim>\<open>parsedIssues.map\<close>. Reading \<^verbatim>\<open>issue.nodeId\<close> of \<^verbatim>\<open>null\<close> throws.
  \<open>now\<close> is the value of \<^verbatim>\<open>Date.now()\<close> at the call for the element of that index.
\<close>

definition make_issue :: "(nat \<Rightarrow> nat) \<Rightarrow> nat \<Rightarrow> json \<Rightarrow> js_error + workflow_issue" where
  "make_issue now idx issue =
     (if issue = JNull then Inl (null_read ''nodeId'')
      else Inr \<lparr>issue_id = ''ai-issue-'' @ nat_str (now idx) @ ''-'' @ nat_str idx,
                nodeId = or_else (field issue ''nodeId'') JNull,
                severity = or_else (field issue ''severity'') (JStr ''warning''),
                message = or_else (field issue ''message'') (JStr ''Unknown issue''),
                fixSuggestion = field issue ''fixSuggestion''\<rparr>)"

fun map_issues :: "(nat \<Rightarrow> nat) \<Rightarrow> nat \<Rightarrow> json list \<Rightarrow> js_error + workflow_issue list" where
  "map_issues now idx [] = Inr []"
| "map_issues now idx (issue # rest) =
     (case make_issue now idx issue of
        Inl e \<Rightarrow> Inl e
      | Inr i \<Rightarrow> (case map_issues now (Suc idx) rest of
                    Inl e \<Rightarrow> Inl e
                  | Inr is \<Rightarrow> Inr (i # is)))"

text \<open>Each extraction is a function of the whole response text. An error thrown inside
  a \<^verbatim>\<open>try\<close> leaves the variable at its initial value. A workflow block that parses
  to \<^verbatim>\<open>null\<close> leaves \<^verbatim>\<open>updatedWorkflow\<close> null, which is \<open>None\<close>.\<close>

definition extract_workflow :: "(string \<Rightarrow> json option) \<Rightarrow> string \<Rightarrow> json option" where
  "extract_workflow parse textResponse =
     (case search match_json_block [] textResponse of
        None \<Rightarrow> None
      | Some (lead, rawJson, trail) \<Rightarrow>
         if rawJson = [] then None
         else (case parse (cleanJsonString rawJson) of
                 Some JNull \<Rightarrow> None
               | parsed \<Rightarrow> parsed))"

definition extract_issues :: "(string \<Rightarrow> json option) \<Rightarrow> (nat \<Rightarrow> nat) \<Rightarrow> string
    \<Rightarrow> workflow_issue list" where
  "extract_issues parse now textResponse =
     (case search (match_tagged ''ISSUES_JSON:'') [] textResponse of
        None \<Rightarrow> []
      | Some (lead, rawIssues, trail) \<Rightarrow>
         (case parse (cleanJsonString rawIssues) of
            Some (JArr parsedIssues) \<Rightarrow>
              (case map_issues now 0 parsedIssues of Inl e \<Rightarrow> [] | Inr is \<Rightarrow> is)
          | _ \<Rightarrow> []))"

definition extract_actions :: "string \<Rightarrow> string list" where
  "extract_actions textResponse =
     (case search match_actions [] textResponse of
        None \<Rightarrow> []
      | Some (lead, cap, trail) \<Rightarrow>
         if cap = [] then []
         else map (\<lambda>s. filter (\<lambda>c. c \<noteq> CHR 0x27 \<and> c \<noteq> CHR 0x22) (trim s))
                (split_on (CHR '','') cap))"

definition extract_related :: "(string \<Rightarrow> json option) \<Rightarrow> string \<Rightarrow> json" where
  "extract_related parse textResponse =
     (case search (match_tagged ''RELATED_QUESTIONS:'') [] textResponse of
        None \<Rightarrow> JArr []
      | Some (lead, cap, trail) \<Rightarrow>
         (case parse (cleanJsonString cap) of
            None \<Rightarrow> JArr []
          | Some v \<Rightarrow> v))"

text \<open>The first match of an expression replaced by \<open>repl\<close>, in which the patterns of
  \<open>expand\<close> are interpreted.\<close>

definition replace_match :: "(string \<Rightarrow> (string \<times> string) option) \<Rightarrow> string \<Rightarrow> string \<Rightarrow> string" where
  "replace_match m repl s =
     (case search m [] s of
        None \<Rightarrow> s
      | Some (lead, cap, trail) \<Rightarrow>
         lead @ expand (Some cap)
                  (take (length s - length lead - length trail) (drop (length lead) s))
                  lead trail repl
              @ trail)"

definition cleanText :: "string \<Rightarrow> string \<Rightarrow> string" where
  "cleanText updateMessage textResponse =
     trim (replace_match (match_tagged ''RELATED_QUESTIONS:'') []
            (replace_match match_actions []
              (replace_match (match_tagged ''ISSUES_JSON:'') []
                (replace_match match_json_block updateMessage textResponse))))"

subsection \<open>The entry point\<close>

record agent_response =
  chatResponse :: string
  updatedWorkflow :: "json option"
  missingNodes :: "string list option"
  issues :: "workflow_issue list option"
  suggestedActions :: "string list"
  relatedQuestions :: "json option"
  groundingSources :: "source list"

text \<open>
  What the platform and the surroundings supply: the table of messages \<^verbatim>\<open>t(lang, key)\<close>,
  the clock, the parser, the two \<^verbatim>\<open>fetch\<close> functions, the SDK stream, the environment
  key and the decoder. The code of \<^verbatim>\<open>t\<close> (\<^verbatim>\<open>utils/i18n\<close>) is not among the sources; it
  is taken as a function that returns a string for every language and key.
\<close>

record ('d, 'b) platform =
  p_t :: "string \<Rightarrow> string \<Rightarrow> string"
  p_now :: "nat \<Rightarrow> nat"
  p_parse :: "string \<Rightarrow> json option"
  p_fetch :: "http_request \<Rightarrow> js_error + http_response"
  p_fetch_stream :: "http_request \<Rightarrow> js_error + 'b stream_response"
  p_sdk :: "gen_chunk list \<times> js_error option"
  p_env_key :: "string option"
  p_step :: "'d \<Rightarrow> 'b \<Rightarrow> 'd \<times> string"
  p_d0 :: 'd

text \<open>
  The part of the \<^verbatim>\<open>try\<close> block after the adapter has returned. The custom adapter may
  return a value that is not a string, and \<^verbatim>\<open>textResponse.match\<close> then throws a
  \<^verbatim>\<open>TypeError\<close> (the message is the engine's).
\<close>

definition parse_response :: "('d, 'b) platform \<Rightarrow> string \<Rightarrow> json \<Rightarrow> source list
    \<Rightarrow> js_error + agent_response" where
  "parse_response pf lang textResponse sources =
     (case textResponse of
        JStr txt \<Rightarrow>
          Inr \<lparr>chatResponse = cleanText (p_t pf lang ''updateMessage'') txt,
               updatedWorkflow = extract_workflow (p_parse pf) txt,
               missingNodes = Some [],
               issues = Some (extract_issues (p_parse pf) (p_now pf) txt),
               suggestedActions =
                 (if extract_actions txt \<noteq> [] then extract_actions txt
                  else [p_t pf lang ''actionUndo'', p_t pf lang ''actionExplainChanges'']),
               relatedQuestions = Some (extract_related (p_parse pf) txt),
               groundingSources = sources\<rparr>
      | _ \<Rightarrow> Inl (Error ''textResponse.match is not a function''))"








section \<open>The session identity in \<^verbatim>\<open>App.tsx\<close>\<close>















section \<open>Properties\<close>

subsection \<open>De-duplication of grounding sources\<close>

lemma map_set_keys:
  "map fst (map_set k v m) = (if k \<in> fst ` set m then map fst m else map fst m @ [k])"
  by (induction m) (auto simp: image_iff split: if_splits)

lemma map_set_distinct: "distinct (map fst m) \<Longrightarrow> distinct (map fst (map_set k v m))"
  by (simp add: map_set_keys)

lemma map_of_map_set:
  "map_of (map_set k v m) = (map_of m)(k \<mapsto> v)"
  by (induction m) (auto simp: fun_eq_iff)

lemma foldl_map_set_keys:
  "map fst (foldl (\<lambda>m (k, v). map_set k v m) m0 es)
     = map fst m0 @ rev (remdups (rev (filter (\<lambda>k. k \<notin> fst ` set m0) (map fst es))))"
proof (induction es arbitrary: m0 rule: rev_induct)
  case Nil
  show ?case by simp
next
  case (snoc e es)
  obtain k v where e: "e = (k, v)" by (cases e)
  let ?m = "foldl (\<lambda>m (k, v). map_set k v m) m0 es"
  have keys: "fst ` set ?m = fst ` set m0 \<union> fst ` set es"
  proof -
    have "set (map fst ?m) = set (map fst m0) \<union> (set (map fst es) - fst ` set m0)"
      by (simp add: snoc.IH) blast
    then show ?thesis by auto
  qed
  show ?case
    by (auto simp: e map_set_keys keys snoc.IH image_iff)
qed

lemma foldl_map_set_distinct:
  "distinct (map fst m0) \<Longrightarrow> distinct (map fst (foldl (\<lambda>m (k, v). map_set k v m) m0 es))"
  by (induction es arbitrary: m0) (auto simp: map_set_distinct)

lemma foldl_map_set_map_of:
  "map_of (foldl (\<lambda>m (k, v). map_set k v m) m0 es) = map_of m0 ++ map_of (rev es)"
proof (induction es arbitrary: m0)
  case Nil
  show ?case by simp
next
  case (Cons e es)
  obtain k v where e: "e = (k, v)" by (cases e)
  show ?case
    by (simp add: e Cons.IH map_of_map_set map_add_def fun_eq_iff split: option.splits)
qed

lemma new_Map_keys: "map fst (new_Map es) = rev (remdups (rev (map fst es)))"
  by (simp add: new_Map_def foldl_map_set_keys)

lemma new_Map_map_of: "map_of (new_Map es) = map_of (rev es)"
  by (simp add: new_Map_def foldl_map_set_map_of)

lemma distinct_assoc_values:
  "distinct (map fst m) \<Longrightarrow> map snd m = map (\<lambda>k. the (map_of m k)) (map fst m)"
proof (induction m)
  case Nil
  show ?case by simp
next
  case (Cons a m)
  have "map (\<lambda>k. the (map_of (a # m) k)) (map fst m) = map (\<lambda>k. the (map_of m k)) (map fst m)"
    using Cons.prems by (intro map_cong) (force simp: image_iff)+
  then show ?case using Cons by simp
qed

lemma map_of_rev_last:
  "u \<in> f ` set xs \<Longrightarrow>
     map_of (rev (map (\<lambda>i. (f i, i)) xs)) u = Some (last (filter (\<lambda>i. f i = u) xs))"
  by (induction xs rule: rev_induct) auto

lemma uniqueSources_eq:
  "uniqueSources xs =
     map (\<lambda>u. last (filter (\<lambda>i. uri i = u) xs)) (rev (remdups (rev (map uri xs))))"
proof -
  let ?es = "map (\<lambda>item. (uri item, item)) xs"
  have k: "map fst (new_Map ?es) = rev (remdups (rev (map uri xs)))"
    by (simp add: new_Map_keys comp_def)
  have d: "distinct (map fst (new_Map ?es))"
    by (simp add: k)
  have "map snd (new_Map ?es) = map (\<lambda>k. the (map_of (rev ?es) k)) (map fst (new_Map ?es))"
    using distinct_assoc_values [OF d] by (simp add: new_Map_map_of)
  also have "\<dots> = map (\<lambda>u. last (filter (\<lambda>i. uri i = u) xs)) (rev (remdups (rev (map uri xs))))"
    unfolding k by (rule map_cong) (simp_all add: map_of_rev_last)
  finally show ?thesis by (simp add: uniqueSources_def)
qed

lemma uri_last_filter:
  assumes "u \<in> uri ` set xs"
  shows "uri (last (filter (\<lambda>i. uri i = u) xs)) = u"
proof -
  from assms have "filter (\<lambda>i. uri i = u) xs \<noteq> []"
    by (auto simp: filter_empty_conv)
  then have "last (filter (\<lambda>i. uri i = u) xs) \<in> set (filter (\<lambda>i. uri i = u) xs)"
    by (rule last_in_set)
  then show ?thesis by simp
qed

lemma uniqueSources_uris: "map uri (uniqueSources xs) = rev (remdups (rev (map uri xs)))"
  unfolding uniqueSources_eq map_map
  by (rule map_idI) (simp add: uri_last_filter)

text \<open>
  C7 (as the code has it). The citations of a call are the sources collected by the loop.
  The returned list has one entry for each distinct uri, in the order in which the uris
  were first seen, and the entry of a uri is the last citation collected for it (a
  \<^verbatim>\<open>Map\<close> built from entries keeps the position of the first and the value of the last).
\<close>

theorem callGoogleGemini_sources_last_seen:
  assumes "callGoogleGemini settings env_key onStream (chunks, None) = (Inr (text, srcs), deltas)"
  shows "srcs = map (\<lambda>u. last (filter (\<lambda>i. uri i = u) (fst (snd (gemini_loop ([], [], []) chunks)))))
                  (rev (remdups (rev (map uri (fst (snd (gemini_loop ([], [], []) chunks)))))))
       \<and> map uri srcs = rev (remdups (rev (map uri (fst (snd (gemini_loop ([], [], []) chunks))))))
       \<and> distinct (map uri srcs)"
proof -
  obtain t a d where l: "gemini_loop ([], [], []) chunks = (t, a, d)"
    by (cases "gemini_loop ([], [], []) chunks")
  from assms have s: "srcs = uniqueSources a"
    by (auto simp: callGoogleGemini_def l split: if_splits)
  show ?thesis
    unfolding l s by (simp add: uniqueSources_uris) (rule uniqueSources_eq)
qed

theorem callGoogleGemini_sources_last_seen_witness:
  "callGoogleGemini \<lparr>provider = ''google'', apiKey = ''k'', modelName = ''m'', baseUrl = None,
         language = ''en'', customConfig = None, activeBackendConfigId = None,
         usePythonBackend = False, pythonBackendUrl = []\<rparr> None True
       ([\<lparr>chunk_text = Some ''hi'', groundingChunks = Some
            [\<lparr>web_uri = Some ''u'', web_title = Some ''A''\<rparr>,
             \<lparr>web_uri = Some ''w'', web_title = Some ''C''\<rparr>]\<rparr>,
         \<lparr>chunk_text = None, groundingChunks = Some
            [\<lparr>web_uri = Some ''u'', web_title = Some ''B''\<rparr>]\<rparr>], None)
     = (Inr (''hi'', [\<lparr>uri = ''u'', title = ''B''\<rparr>, \<lparr>uri = ''w'', title = ''C''\<rparr>]), [''hi''])
   \<and> map uri [\<lparr>uri = ''u'', title = ''B''\<rparr>, \<lparr>uri = ''w'', title = ''C''\<rparr>] = [''u'', ''w'']"
proof -
  have c: "callGoogleGemini \<lparr>provider = ''google'', apiKey = ''k'', modelName = ''m'', baseUrl = None,
         language = ''en'', customConfig = None, activeBackendConfigId = None,
         usePythonBackend = False, pythonBackendUrl = []\<rparr> None True
       ([\<lparr>chunk_text = Some ''hi'', groundingChunks = Some
            [\<lparr>web_uri = Some ''u'', web_title = Some ''A''\<rparr>,
             \<lparr>web_uri = Some ''w'', web_title = Some ''C''\<rparr>]\<rparr>,
         \<lparr>chunk_text = None, groundingChunks = Some
            [\<lparr>web_uri = Some ''u'', web_title = Some ''B''\<rparr>]\<rparr>], None)
     = (Inr (''hi'', [\<lparr>uri = ''u'', title = ''B''\<rparr>, \<lparr>uri = ''w'', title = ''C''\<rparr>]), [''hi''])"
    by (simp add: callGoogleGemini_def nonempty_def uniqueSources_def new_Map_def)
  from callGoogleGemini_sources_last_seen [OF c] c show ?thesis by simp
qed

text \<open>
  C7 as the specification states it fails: of two citations with the same uri the
  returned entry carries the title seen last, not the one seen first.
\<close>

theorem callGoogleGemini_first_title_counterexample:
  "fst (callGoogleGemini \<lparr>provider = ''google'', apiKey = ''k'', modelName = ''m'', baseUrl = None,
         language = ''en'', customConfig = None, activeBackendConfigId = None,
         usePythonBackend = False, pythonBackendUrl = []\<rparr> None True
       ([\<lparr>chunk_text = Some ''hi'', groundingChunks = Some
            [\<lparr>web_uri = Some ''u'', web_title = Some ''A''\<rparr>]\<rparr>,
         \<lparr>chunk_text = None, groundingChunks = Some
            [\<lparr>web_uri = Some ''u'', web_title = Some ''B''\<rparr>]\<rparr>], None))
     = Inr (''hi'', [\<lparr>uri = ''u'', title = ''B''\<rparr>])
   \<and> fst (callGoogleGemini \<lparr>provider = ''google'', apiKey = ''k'', modelName = ''m'', baseUrl = None,
         language = ''en'', customConfig = None, activeBackendConfigId = None,
         usePythonBackend = False, pythonBackendUrl = []\<rparr> None True
       ([\<lparr>chunk_text = Some ''hi'', groundingChunks = Some
            [\<lparr>web_uri = Some ''u'', web_title = Some ''A''\<rparr>]\<rparr>,
         \<lparr>chunk_text = None, groundingChunks = Some
            [\<lparr>web_uri = Some ''u'', web_title = Some ''B''\<rparr>]\<rparr>], None))
     \<noteq> Inr (''hi'', [\<lparr>uri = ''u'', title = ''A''\<rparr>])"
  by (simp add: callGoogleGemini_def nonempty_def uniqueSources_def new_Map_def)

subsection \<open>Template substitution\<close>

lemma expand_no_dollar:
  "CHR ''$'' \<notin> set r \<Longrightarrow> expand cap m l t r = r"
  by (induction cap m l t r rule: expand.induct) auto

lemma replace_from_absent:
  "p \<notin> set s \<Longrightarrow> replace_from p ps repl l s = s"
  by (induction s arbitrary: l) auto

lemma replace_from_absent2:
  "q \<notin> set s \<Longrightarrow> replace_from p (q # qs) repl l s = s"
proof (induction s arbitrary: l)
  case Nil
  show ?case by simp
next
  case (Cons c cs)
  have "take (Suc (length qs)) cs \<noteq> q # qs"
  proof
    assume "take (Suc (length qs)) cs = q # qs"
    then have "q \<in> set (take (Suc (length qs)) cs)" by simp
    then have "q \<in> set cs" by (rule in_set_takeD)
    with Cons.prems show False by simp
  qed
  with Cons show ?case by simp
qed

lemma replace_from_skip:
  "p \<notin> set a \<Longrightarrow> replace_from p ps repl l (a @ b) = a @ replace_from p ps repl (l @ a) b"
  by (induction a arbitrary: l) auto

lemma replace_from_skip2:
  assumes "q \<notin> set a" and "b = [] \<or> hd b \<noteq> q"
  shows "replace_from p (q # qs) repl l (a @ b) = a @ replace_from p (q # qs) repl (l @ a) b"
  using assms(1)
proof (induction a arbitrary: l)
  case Nil
  show ?case by simp
next
  case (Cons c cs)
  have "take (Suc (length qs)) (cs @ b) \<noteq> q # qs"
  proof
    assume e: "take (Suc (length qs)) (cs @ b) = q # qs"
    show False
    proof (cases cs)
      case Nil
      with e assms(2) show False by (cases b) auto
    next
      case (Cons d ds)
      with e have "d = q" by simp
      with Cons Cons.prems show False by simp
    qed
  qed
  with Cons show ?case by simp
qed

lemma replace_from_hit:
  "replace_from p ps repl l (p # ps @ r)
     = expand None (p # ps) l r repl @ replace_from p ps repl (l @ p # ps) r"
  by simp

lemma replace_newRP_no_dollar:
  "CHR ''$'' \<notin> set s \<Longrightarrow> replace_newRP (CHR ''$'' # k) repl s = s"
  "CHR ''$'' \<notin> set s \<Longrightarrow> replace_newRP (c # CHR ''$'' # k) repl s = s"
  by (simp_all add: replace_newRP_def replace_from_absent replace_from_absent2)

lemma subst_key_no_dollar:
  "CHR ''$'' \<notin> set s \<Longrightarrow> subst_key key val s = s"
  by (simp add: subst_key_def Let_def replace_newRP_no_dollar)

lemma resolveTemplate_no_dollar:
  "CHR ''$'' \<notin> set s \<Longrightarrow> resolveTemplate s vars = s"
  by (induction vars) (auto simp: subst_key_no_dollar)

lemma bare_hit:
  assumes "CHR ''$'' \<notin> set pre"
  shows "replace_from (CHR ''$'') x repl l (pre @ CHR ''$'' # x @ r)
       = pre @ expand None (CHR ''$'' # x) (l @ pre) r repl
             @ replace_from (CHR ''$'') x repl (l @ pre @ CHR ''$'' # x) r"
  using assms by (simp add: replace_from_skip)

lemma quoted_hit:
  assumes "CHR ''$'' \<notin> set pre" and "q \<noteq> CHR ''$''"
  shows "replace_from q (CHR ''$'' # x @ [q]) repl l (pre @ q # CHR ''$'' # x @ q # r)
       = pre @ expand None (q # CHR ''$'' # x @ [q]) (l @ pre) r repl
             @ replace_from q (CHR ''$'' # x @ [q]) repl (l @ pre @ q # CHR ''$'' # x @ [q]) r"
proof -
  have "replace_from q (CHR ''$'' # x @ [q]) repl l (pre @ q # CHR ''$'' # x @ q # r)
      = pre @ replace_from q (CHR ''$'' # x @ [q]) repl (l @ pre) (q # CHR ''$'' # x @ q # r)"
    using assms by (intro replace_from_skip2) auto
  then show ?thesis by simp
qed

lemma quoted_miss:
  assumes "CHR ''$'' \<notin> set pre" and "CHR ''$'' \<notin> set x" and "CHR ''$'' \<notin> set suf"
    and "q \<noteq> CHR ''$''" and "suf = [] \<or> hd suf \<noteq> q"
  shows "replace_from q (CHR ''$'' # x @ [q]) repl l (pre @ CHR ''$'' # x @ suf)
       = pre @ CHR ''$'' # x @ suf"
proof -
  have tail: "replace_from q (CHR ''$'' # x @ [q]) repl l' (CHR ''$'' # x @ suf) = CHR ''$'' # x @ suf" for l'
    using assms by (simp add: replace_from_absent2)
  show ?thesis
  proof (cases pre rule: rev_cases)
    case Nil
    then show ?thesis by (simp only: append_Nil tail)
  next
    case (snoc pre' c)
    have c: "c \<noteq> CHR ''$''" and pre': "CHR ''$'' \<notin> set pre'"
      using assms(1) snoc by auto
    have nomatch: "c \<noteq> q \<or> take (Suc 0) suf \<noteq> [q]"
      using assms(5) by (cases suf) auto
    have "replace_from q (CHR ''$'' # x @ [q]) repl l (pre' @ c # CHR ''$'' # x @ suf)
        = pre' @ replace_from q (CHR ''$'' # x @ [q]) repl (l @ pre') (c # CHR ''$'' # x @ suf)"
      using pre' c by (intro replace_from_skip2) auto
    also have "\<dots> = pre' @ c # replace_from q (CHR ''$'' # x @ [q]) repl (l @ pre' @ [c]) (CHR ''$'' # x @ suf)"
      using nomatch by auto
    finally show ?thesis by (simp only: tail snoc) simp
  qed
qed

lemma resolveTemplate_quoting_general:
  assumes obj: "is_object v"
    and J: "CHR ''$'' \<notin> set (stringify v)"
    and pre: "CHR ''$'' \<notin> set pre" and suf: "CHR ''$'' \<notin> set suf" and x: "CHR ''$'' \<notin> set x"
  shows "resolveTemplate (pre @ CHR 0x22 # CHR ''$'' # x @ CHR 0x22 # suf) ((x, v) # vars)
           = pre @ stringify v @ suf"
    and "resolveTemplate (pre @ CHR 0x27 # CHR ''$'' # x @ CHR 0x27 # suf) ((x, v) # vars)
           = pre @ stringify v @ suf"
    and "suf = [] \<or> (hd suf \<noteq> CHR 0x22 \<and> hd suf \<noteq> CHR 0x27) \<Longrightarrow>
         resolveTemplate (pre @ CHR ''$'' # x @ suf) ((x, v) # vars)
           = pre @ stringify v @ suf"
proof -
  let ?J = "stringify v"
  have clean: "CHR ''$'' \<notin> set (pre @ ?J @ suf)"
    using J pre suf by simp
  have fin: "resolveTemplate (pre @ ?J @ suf) vars = pre @ ?J @ suf"
    using clean by (rule resolveTemplate_no_dollar)
  have rest: "replace_newRP (CHR ''$'' # x) ?J (pre @ ?J @ suf) = pre @ ?J @ suf"
       "replace_newRP (c # CHR ''$'' # x @ [c]) ?J (pre @ ?J @ suf) = pre @ ?J @ suf" for c
    by (rule replace_newRP_no_dollar(1) [OF clean], rule replace_newRP_no_dollar(2) [OF clean])
  have sufq: "replace_from c (CHR ''$'' # x @ [c]) ?J l suf = suf" for c l
    using suf by (simp add: replace_from_absent2)
  have sufb: "replace_from (CHR ''$'') x ?J l suf = suf" for l
    using suf by (simp add: replace_from_absent)
  have d: "replace_newRP (CHR 0x22 # CHR ''$'' # x @ [CHR 0x22]) ?J
             (pre @ CHR 0x22 # CHR ''$'' # x @ CHR 0x22 # suf) = pre @ ?J @ suf"
    unfolding replace_newRP_def list.case
    using quoted_hit [of pre "CHR 0x22" x ?J "[]" suf] pre
    by (simp add: expand_no_dollar J sufq del: replace_from.simps)
  show "resolveTemplate (pre @ CHR 0x22 # CHR ''$'' # x @ CHR 0x22 # suf) ((x, v) # vars)
           = pre @ stringify v @ suf"
    using obj by (simp add: subst_key_def Let_def d rest fin del: replace_from.simps)
  have s1: "replace_newRP (CHR 0x22 # CHR ''$'' # x @ [CHR 0x22]) ?J
             (pre @ CHR 0x27 # CHR ''$'' # x @ CHR 0x27 # suf) = pre @ CHR 0x27 # CHR ''$'' # x @ CHR 0x27 # suf"
    unfolding replace_newRP_def list.case
    using quoted_miss [of "pre @ [CHR 0x27]" x "CHR 0x27 # suf" "CHR 0x22" ?J "[]"] pre suf x
    by simp
  have s2: "replace_newRP (CHR 0x27 # CHR ''$'' # x @ [CHR 0x27]) ?J
             (pre @ CHR 0x27 # CHR ''$'' # x @ CHR 0x27 # suf) = pre @ ?J @ suf"
    unfolding replace_newRP_def list.case
    using quoted_hit [of pre "CHR 0x27" x ?J "[]" suf] pre
    by (simp add: expand_no_dollar J sufq del: replace_from.simps)
  show "resolveTemplate (pre @ CHR 0x27 # CHR ''$'' # x @ CHR 0x27 # suf) ((x, v) # vars)
           = pre @ stringify v @ suf"
    using obj by (simp add: subst_key_def Let_def s1 s2 rest fin del: replace_from.simps)
  assume b: "suf = [] \<or> (hd suf \<noteq> CHR 0x22 \<and> hd suf \<noteq> CHR 0x27)"
  have b1: "replace_newRP (CHR 0x22 # CHR ''$'' # x @ [CHR 0x22]) ?J
             (pre @ CHR ''$'' # x @ suf) = pre @ CHR ''$'' # x @ suf"
    unfolding replace_newRP_def list.case
    using quoted_miss [of pre x suf "CHR 0x22" ?J "[]"] pre suf x b by auto
  have b2: "replace_newRP (CHR 0x27 # CHR ''$'' # x @ [CHR 0x27]) ?J
             (pre @ CHR ''$'' # x @ suf) = pre @ CHR ''$'' # x @ suf"
    unfolding replace_newRP_def list.case
    using quoted_miss [of pre x suf "CHR 0x27" ?J "[]"] pre suf x b by auto
  have b3: "replace_newRP (CHR ''$'' # x) ?J (pre @ CHR ''$'' # x @ suf) = pre @ ?J @ suf"
    unfolding replace_newRP_def list.case
    using bare_hit [of pre x ?J "[]" suf] pre
    by (simp add: expand_no_dollar J sufb del: replace_from.simps)
  show "resolveTemplate (pre @ CHR ''$'' # x @ suf) ((x, v) # vars) = pre @ stringify v @ suf"
    using obj by (simp add: subst_key_def Let_def b1 b2 b3 fin del: replace_from.simps)
qed

lemma Name_not_next:
  assumes "\<not> startsWith m ''Name''" and "CHR ''$'' \<notin> set m"
  shows "take (Suc (Suc (Suc (Suc 0)))) (m @ CHR ''$'' # r) \<noteq> ''Name''"
proof
  assume e: "take (Suc (Suc (Suc (Suc 0)))) (m @ CHR ''$'' # r) = ''Name''"
  show False
  proof (cases "4 \<le> length m")
    case True
    then have "take (Suc (Suc (Suc (Suc 0)))) m = ''Name''" using e by simp
    with assms(1) show False by (simp add: startsWith_def)
  next
    case False
    then obtain k where k: "Suc (Suc (Suc (Suc 0))) - length m = Suc k"
      by (cases "Suc (Suc (Suc (Suc 0))) - length m") auto
    have "CHR ''$'' \<in> set (take (Suc (Suc (Suc (Suc 0)))) (m @ CHR ''$'' # r))"
      by (simp add: k)
    with e show False by simp
  qed
qed

lemma model_first:
  assumes p: "CHR ''$'' \<notin> set p" and m: "CHR ''$'' \<notin> set m" and s: "CHR ''$'' \<notin> set s"
    and a: "CHR ''$'' \<notin> set a"
  shows "resolveTemplate (p @ ''$model'' @ m @ ''$modelName'' @ s)
           ((''model'', JStr a) # vars) = p @ a @ m @ a @ ''Name'' @ s"
proof -
  have t: "CHR ''$'' \<notin> set (''Name'' @ s)" using s by simp
  have 1: "replace_from (CHR ''$'') ''model'' a [] (p @ CHR ''$'' # ''model'' @ (m @ CHR ''$'' # ''model'' @ (''Name'' @ s)))
         = p @ a @ replace_from (CHR ''$'') ''model'' a ([] @ p @ CHR ''$'' # ''model'') (m @ CHR ''$'' # ''model'' @ (''Name'' @ s))"
    by (simp only: bare_hit [OF p] expand_no_dollar [OF a])
  have 2: "replace_from (CHR ''$'') ''model'' a l (m @ CHR ''$'' # ''model'' @ (''Name'' @ s))
         = m @ a @ ''Name'' @ s" for l
    by (simp only: bare_hit [OF m] expand_no_dollar [OF a] replace_from_absent [OF t])
  have "replace_newRP ''$model'' a (p @ ''$model'' @ m @ ''$modelName'' @ s) = p @ a @ m @ a @ ''Name'' @ s"
    using 1 2 by (simp add: replace_newRP_def del: replace_from.simps)
  moreover have "CHR ''$'' \<notin> set (p @ a @ m @ a @ ''Name'' @ s)"
    using p m s a by simp
  ultimately show ?thesis
    by (simp add: subst_key_def resolveTemplate_no_dollar del: replace_from.simps)
qed

lemma modelName_first:
  assumes p: "CHR ''$'' \<notin> set p" and m: "CHR ''$'' \<notin> set m" and s: "CHR ''$'' \<notin> set s"
    and a: "CHR ''$'' \<notin> set a" and b: "CHR ''$'' \<notin> set b"
    and n: "\<not> startsWith m ''Name''"
  shows "resolveTemplate (p @ ''$model'' @ m @ ''$modelName'' @ s)
           ((''modelName'', JStr b) # (''model'', JStr a) # vars) = p @ a @ m @ b @ s"
proof -
  have mm: "CHR ''$'' \<notin> set (''model'' @ m)" using m by simp
  have t: "CHR ''$'' \<notin> set (m @ b @ s)" using m b s by simp
  have nm: "take (Suc (Suc (Suc (Suc 0)))) (m @ CHR ''$'' # ''modelName'' @ s) \<noteq> ''Name''"
    by (rule Name_not_next [OF n m])
  have 1: "replace_from (CHR ''$'') ''modelName'' b [] (p @ (CHR ''$'' # ''model'' @ m @ CHR ''$'' # ''modelName'' @ s))
         = p @ replace_from (CHR ''$'') ''modelName'' b ([] @ p) (CHR ''$'' # ''model'' @ m @ CHR ''$'' # ''modelName'' @ s)"
    by (rule replace_from_skip [OF p])
  have 2: "replace_from (CHR ''$'') ''modelName'' b l (CHR ''$'' # ''model'' @ m @ CHR ''$'' # ''modelName'' @ s)
         = CHR ''$'' # replace_from (CHR ''$'') ''modelName'' b (l @ ''$'') ((''model'' @ m) @ CHR ''$'' # ''modelName'' @ s)" for l
    using nm by simp
  have 3: "replace_from (CHR ''$'') ''modelName'' b l ((''model'' @ m) @ CHR ''$'' # ''modelName'' @ s)
         = (''model'' @ m) @ b @ s" for l
    by (simp only: bare_hit [OF mm] expand_no_dollar [OF b] replace_from_absent [OF s])
  have "replace_newRP ''$modelName'' b (p @ ''$model'' @ m @ ''$modelName'' @ s)
      = replace_from (CHR ''$'') ''modelName'' b [] (p @ (CHR ''$'' # ''model'' @ m @ CHR ''$'' # ''modelName'' @ s))"
    by (simp add: replace_newRP_def del: replace_from.simps)
  also have "\<dots> = p @ replace_from (CHR ''$'') ''modelName'' b ([] @ p) (CHR ''$'' # ''model'' @ m @ CHR ''$'' # ''modelName'' @ s)"
    by (rule 1)
  also have "\<dots> = p @ CHR ''$'' # (''model'' @ m) @ b @ s"
    by (simp only: 2 3)
  finally have r1: "replace_newRP ''$modelName'' b (p @ ''$model'' @ m @ ''$modelName'' @ s)
          = p @ CHR ''$'' # ''model'' @ (m @ b @ s)"
    by simp
  have r2: "replace_newRP ''$model'' a (p @ CHR ''$'' # ''model'' @ (m @ b @ s)) = p @ a @ m @ b @ s"
    unfolding replace_newRP_def list.case
    by (simp only: bare_hit [OF p] expand_no_dollar [OF a] replace_from_absent [OF t])
  have "CHR ''$'' \<notin> set (p @ a @ m @ b @ s)"
    using p m s a b by simp
  then have fin: "resolveTemplate (p @ a @ m @ b @ s) vars = p @ a @ m @ b @ s"
    by (rule resolveTemplate_no_dollar)
  show ?thesis
    using r1 r2 fin by (simp add: subst_key_def del: replace_from.simps)
qed

lemma model_first_rev:
  assumes p: "CHR ''$'' \<notin> set p" and m: "CHR ''$'' \<notin> set m" and s: "CHR ''$'' \<notin> set s"
    and a: "CHR ''$'' \<notin> set a"
  shows "resolveTemplate (p @ ''$modelName'' @ m @ ''$model'' @ s)
           ((''model'', JStr a) # vars) = p @ a @ ''Name'' @ m @ a @ s"
proof -
  have t: "CHR ''$'' \<notin> set (''Name'' @ m)" using m by simp
  have 1: "replace_from (CHR ''$'') ''model'' a [] (p @ CHR ''$'' # ''model'' @ ((''Name'' @ m) @ CHR ''$'' # ''model'' @ s))
         = p @ a @ replace_from (CHR ''$'') ''model'' a ([] @ p @ CHR ''$'' # ''model'') ((''Name'' @ m) @ CHR ''$'' # ''model'' @ s)"
    by (simp only: bare_hit [OF p] expand_no_dollar [OF a])
  have 2: "replace_from (CHR ''$'') ''model'' a l ((''Name'' @ m) @ CHR ''$'' # ''model'' @ s)
         = (''Name'' @ m) @ a @ s" for l
    by (simp only: bare_hit [OF t] expand_no_dollar [OF a] replace_from_absent [OF s])
  have "replace_newRP ''$model'' a (p @ ''$modelName'' @ m @ ''$model'' @ s) = p @ a @ ''Name'' @ m @ a @ s"
    using 1 2 by (simp add: replace_newRP_def del: replace_from.simps)
  moreover have "CHR ''$'' \<notin> set (p @ a @ ''Name'' @ m @ a @ s)"
    using p m s a by simp
  ultimately show ?thesis
    by (simp add: subst_key_def resolveTemplate_no_dollar del: replace_from.simps)
qed

lemma modelName_first_rev:
  assumes p: "CHR ''$'' \<notin> set p" and m: "CHR ''$'' \<notin> set m" and s: "CHR ''$'' \<notin> set s"
    and a: "CHR ''$'' \<notin> set a" and b: "CHR ''$'' \<notin> set b"
    and n: "\<not> startsWith s ''Name''"
  shows "resolveTemplate (p @ ''$modelName'' @ m @ ''$model'' @ s)
           ((''modelName'', JStr b) # (''model'', JStr a) # vars) = p @ b @ m @ a @ s"
proof -
  have ms: "CHR ''$'' \<notin> set (''model'' @ s)" using s by simp
  have pbm: "CHR ''$'' \<notin> set (p @ b @ m)" using p b m by simp
  have nm: "take (Suc (Suc (Suc (Suc 0)))) s \<noteq> ''Name''"
    using n by (simp add: startsWith_def)
  have 1: "replace_from (CHR ''$'') ''modelName'' b [] (p @ CHR ''$'' # ''modelName'' @ (m @ CHR ''$'' # ''model'' @ s))
         = p @ b @ replace_from (CHR ''$'') ''modelName'' b ([] @ p @ CHR ''$'' # ''modelName'') (m @ CHR ''$'' # ''model'' @ s)"
    by (simp only: bare_hit [OF p] expand_no_dollar [OF b])
  have 2: "replace_from (CHR ''$'') ''modelName'' b l (m @ (CHR ''$'' # ''model'' @ s))
         = m @ replace_from (CHR ''$'') ''modelName'' b (l @ m) (CHR ''$'' # ''model'' @ s)" for l
    by (rule replace_from_skip [OF m])
  have 3: "replace_from (CHR ''$'') ''modelName'' b l (CHR ''$'' # ''model'' @ s)
         = CHR ''$'' # replace_from (CHR ''$'') ''modelName'' b (l @ ''$'') (''model'' @ s)" for l
    using nm by simp
  have 4: "replace_from (CHR ''$'') ''modelName'' b l (''model'' @ s) = ''model'' @ s" for l
    by (rule replace_from_absent [OF ms])
  have "replace_newRP ''$modelName'' b (p @ ''$modelName'' @ m @ ''$model'' @ s)
      = replace_from (CHR ''$'') ''modelName'' b [] (p @ CHR ''$'' # ''modelName'' @ (m @ CHR ''$'' # ''model'' @ s))"
    by (simp add: replace_newRP_def del: replace_from.simps)
  also have "\<dots> = p @ b @ replace_from (CHR ''$'') ''modelName'' b ([] @ p @ CHR ''$'' # ''modelName'') (m @ (CHR ''$'' # ''model'' @ s))"
    by (simp only: 1)
  also have "\<dots> = p @ b @ m @ CHR ''$'' # ''model'' @ s"
    by (simp only: 2 3 4)
  finally have r1: "replace_newRP ''$modelName'' b (p @ ''$modelName'' @ m @ ''$model'' @ s)
          = (p @ b @ m) @ CHR ''$'' # ''model'' @ s"
    by simp
  have r2: "replace_newRP ''$model'' a ((p @ b @ m) @ CHR ''$'' # ''model'' @ s) = (p @ b @ m) @ a @ s"
    unfolding replace_newRP_def list.case
    by (simp only: bare_hit [OF pbm] expand_no_dollar [OF a] replace_from_absent [OF s])
  have "CHR ''$'' \<notin> set (p @ b @ m @ a @ s)"
    using p m s a b by simp
  then have fin: "resolveTemplate (p @ b @ m @ a @ s) vars = p @ b @ m @ a @ s"
    by (rule resolveTemplate_no_dollar)
  show ?thesis
    using r1 r2 fin by (simp add: subst_key_def del: replace_from.simps)
qed

text \<open>
  C2 (as the code has it). The placeholders are replaced key after key, in the order of
  the keys, each by a global literal replacement with no token boundary. The template
  holds \<^verbatim>\<open>$model\<close> and \<^verbatim>\<open>$modelName\<close>, in either order. With the key \<open>model\<close> before
  \<open>modelName\<close>, the text \<^verbatim>\<open>$modelName\<close> is rewritten by the substitution for \<^verbatim>\<open>$model\<close>
  and ends as the value of \<open>model\<close> followed by \<^verbatim>\<open>Name\<close>. With \<open>modelName\<close> before \<open>model\<close>
  (and \<^verbatim>\<open>$model\<close> not followed by \<^verbatim>\<open>Name\<close> in the template) both are substituted
  independently. The values and the surrounding text hold no dollar sign.
\<close>

theorem resolveTemplate_model_modelName_order:
  assumes "CHR ''$'' \<notin> set p" and "CHR ''$'' \<notin> set m" and "CHR ''$'' \<notin> set s"
    and "CHR ''$'' \<notin> set a" and "CHR ''$'' \<notin> set b"
  shows "resolveTemplate (p @ ''$model'' @ m @ ''$modelName'' @ s)
           [(''model'', JStr a), (''modelName'', JStr b)] = p @ a @ m @ a @ ''Name'' @ s
       \<and> (\<not> startsWith m ''Name'' \<longrightarrow>
            resolveTemplate (p @ ''$model'' @ m @ ''$modelName'' @ s)
              [(''modelName'', JStr b), (''model'', JStr a)] = p @ a @ m @ b @ s)
       \<and> resolveTemplate (p @ ''$modelName'' @ m @ ''$model'' @ s)
           [(''model'', JStr a), (''modelName'', JStr b)] = p @ a @ ''Name'' @ m @ a @ s
       \<and> (\<not> startsWith s ''Name'' \<longrightarrow>
            resolveTemplate (p @ ''$modelName'' @ m @ ''$model'' @ s)
              [(''modelName'', JStr b), (''model'', JStr a)] = p @ b @ m @ a @ s)"
  using assms model_first [of p m s a] modelName_first [of p m s a b]
    model_first_rev [of p m s a] modelName_first_rev [of p m s a b] by blast

theorem resolveTemplate_model_modelName_order_witness:
  "resolveTemplate ''{\"a\":\"$model\",\"b\":\"$modelName\"}''
       [(''model'', JStr ''m1''), (''modelName'', JStr ''Big'')]
     = ''{\"a\":\"m1\",\"b\":\"m1Name\"}''
   \<and> resolveTemplate ''{\"a\":\"$model\",\"b\":\"$modelName\"}''
       [(''modelName'', JStr ''Big''), (''model'', JStr ''m1'')]
     = ''{\"a\":\"m1\",\"b\":\"Big\"}''
   \<and> resolveTemplate ''{\"a\":\"$modelName\",\"b\":\"$model\"}''
       [(''model'', JStr ''m1''), (''modelName'', JStr ''Big'')]
     = ''{\"a\":\"m1Name\",\"b\":\"m1\"}''
   \<and> resolveTemplate ''{\"a\":\"$modelName\",\"b\":\"$model\"}''
       [(''modelName'', JStr ''Big''), (''model'', JStr ''m1'')]
     = ''{\"a\":\"Big\",\"b\":\"m1\"}''"
  using resolveTemplate_model_modelName_order
    [of "''{\"a\":\"''" "''\",\"b\":\"''" "''\"}''" "''m1''" "''Big''"]
  by (simp add: startsWith_def)

text \<open>
  C2 as the specification states it fails: with the keys in the order \<open>model\<close>,
  \<open>modelName\<close> the occurrence of \<^verbatim>\<open>$modelName\<close> is partially rewritten.
\<close>

theorem resolveTemplate_model_prefix_counterexample:
  "resolveTemplate ''$model $modelName'' [(''model'', JStr ''A''), (''modelName'', JStr ''B'')]
     = ''A AName''
   \<and> resolveTemplate ''$model $modelName'' [(''model'', JStr ''A''), (''modelName'', JStr ''B'')]
     \<noteq> ''A B''"
  by (simp add: subst_key_def replace_newRP_def)

text \<open>
  C3 (as the code has it). For a composite value whose serialization holds no dollar
  sign, bound to a key without a dollar sign, in a template whose only dollar sign is
  that of the placeholder: the double-quoted and the single-quoted placeholder are
  replaced, quotes included, by the compact serialization, and so is the bare
  placeholder when no quote follows it. The last conjunct is Scenario A.
\<close>

theorem resolveTemplate_composite_quoting:
  assumes "is_object v" and "CHR ''$'' \<notin> set (stringify v)"
    and "CHR ''$'' \<notin> set pre" and "CHR ''$'' \<notin> set suf" and "CHR ''$'' \<notin> set x"
  shows "resolveTemplate (pre @ CHR 0x22 # CHR ''$'' # x @ CHR 0x22 # suf) ((x, v) # vars)
           = pre @ stringify v @ suf
       \<and> resolveTemplate (pre @ CHR 0x27 # CHR ''$'' # x @ CHR 0x27 # suf) ((x, v) # vars)
           = pre @ stringify v @ suf
       \<and> (suf = [] \<or> (hd suf \<noteq> CHR 0x22 \<and> hd suf \<noteq> CHR 0x27) \<longrightarrow>
            resolveTemplate (pre @ CHR ''$'' # x @ suf) ((x, v) # vars) = pre @ stringify v @ suf)
       \<and> resolveTemplate ''{\"model\":\"$model\",\"messages\":$messages}''
            [(''model'', JStr ''m1''),
             (''messages'', JArr [JObj [(''role'', JStr ''user''), (''content'', JStr ''hi'')]])]
           = ''{\"model\":\"m1\",\"messages\":[{\"role\":\"user\",\"content\":\"hi\"}]}''"
proof -
  have "resolveTemplate ''{\"model\":\"$model\",\"messages\":$messages}''
            [(''model'', JStr ''m1''),
             (''messages'', JArr [JObj [(''role'', JStr ''user''), (''content'', JStr ''hi'')]])]
           = ''{\"model\":\"m1\",\"messages\":[{\"role\":\"user\",\"content\":\"hi\"}]}''"
    by (simp add: subst_key_def replace_newRP_def quote_def quote_char_def)
  with resolveTemplate_quoting_general [OF assms, of vars] show ?thesis by blast
qed

theorem resolveTemplate_composite_quoting_witness:
  "resolveTemplate ''{\"messages\":\"$messages\"}''
       [(''messages'', JArr [JObj [(''role'', JStr ''user''), (''content'', JStr ''hi'')]])]
     = ''{\"messages\":[{\"role\":\"user\",\"content\":\"hi\"}]}''
   \<and> resolveTemplate (''{\"messages\":'' @ CHR 0x27 # ''$messages'' @ CHR 0x27 # ''}'')
       [(''messages'', JArr [JObj [(''role'', JStr ''user''), (''content'', JStr ''hi'')]])]
     = ''{\"messages\":[{\"role\":\"user\",\"content\":\"hi\"}]}''
   \<and> resolveTemplate ''{\"messages\":$messages}''
       [(''messages'', JArr [JObj [(''role'', JStr ''user''), (''content'', JStr ''hi'')]])]
     = ''{\"messages\":[{\"role\":\"user\",\"content\":\"hi\"}]}''"
  using resolveTemplate_composite_quoting
    [of "JArr [JObj [(''role'', JStr ''user''), (''content'', JStr ''hi'')]]"
        "''{\"messages\":''" "''}''" "''messages''" "[]"]
  by (simp add: quote_def quote_char_def)

text \<open>
  C3 as the specification states it fails. A message whose text mentions the placeholder
  is a composite value whose serialization contains \<^verbatim>\<open>$messages\<close>: the quoted form is
  substituted twice, the bare form once, and the results differ.
\<close>

theorem resolveTemplate_quoted_differs_counterexample:
  "resolveTemplate ''\"$messages\"'' [(''messages'', JArr [JStr ''$messages''])]
     = ''[\"[\"$messages\"]\"]''
   \<and> resolveTemplate ''$messages'' [(''messages'', JArr [JStr ''$messages''])]
     = ''[\"$messages\"]''
   \<and> stringify (JArr [JStr ''$messages'']) = ''[\"$messages\"]''"
  by (simp add: subst_key_def replace_newRP_def quote_def quote_char_def)

subsection \<open>The custom API adapter\<close>

lemma nat_str_nonempty: "nat_str n \<noteq> []"
  by (subst nat_str.simps) simp

lemma num_str_nonempty: "num_str m e \<noteq> []"
  by (simp add: num_str_def Let_def split: list.splits)

lemma stringify_nonempty: "stringify v \<noteq> []"
  by (cases v) (auto simp: num_str_nonempty quote_def)

lemma truthy_opt_not_empty: "truthy_opt v \<Longrightarrow> the v \<noteq> JStr []"
  by (cases v) auto

lemma extract_text_nonempty: "extract_text data = Inr v \<Longrightarrow> v \<noteq> JStr []"
  by (auto simp: extract_text_def stringify_nonempty truthy_opt_not_empty split: if_splits)

text \<open>
  C4. With a base address configured, the resolved header template is parsed first and
  the resolved body template second, both before the request: when the headers do not
  parse the call fails with an error that names the headers, when the headers parse and
  the body does not it fails with a different error that names the body template, and in
  both cases no request has been sent and \<^verbatim>\<open>onStream\<close> has not been called. A request is
  sent only when both have parsed.
\<close>

theorem callCustomLLM_template_errors:
  assumes "nonempty (baseUrl settings)"
  shows "(parse (resolveTemplate (headersTpl settings) (variables settings prompt sys)) = None \<longrightarrow>
            callCustomLLM parse fetch settings prompt sys onStream
              = (Inl (Error ''Invalid Headers Configuration''), [], []))
       \<and> (parse (resolveTemplate (headersTpl settings) (variables settings prompt sys)) \<noteq> None
            \<and> parse (resolveTemplate (bodyTpl settings) (variables settings prompt sys)) = None \<longrightarrow>
            callCustomLLM parse fetch settings prompt sys onStream
              = (Inl (Error ''Invalid Body Template JSON''), [], []))
       \<and> (fst (snd (callCustomLLM parse fetch settings prompt sys onStream)) \<noteq> [] \<longrightarrow>
            parse (resolveTemplate (headersTpl settings) (variables settings prompt sys)) \<noteq> None
            \<and> parse (resolveTemplate (bodyTpl settings) (variables settings prompt sys)) \<noteq> None)
       \<and> Error ''Invalid Headers Configuration'' \<noteq> Error ''Invalid Body Template JSON''"
  using assms
  by (auto simp: callCustomLLM_def Let_def split: option.splits sum.splits)

text \<open>
  C6 (as the code has it). For a response body other than \<^verbatim>\<open>null\<close> the reply text is
  chosen by nested tests, not by one chain. When \<^verbatim>\<open>choices[0]\<close> is present, only it is
  looked at: its \<^verbatim>\<open>message.content\<close> when it has a message, else its \<^verbatim>\<open>text\<close>. When
  \<^verbatim>\<open>choices[0]\<close> is absent, the flat \<^verbatim>\<open>content\<close> and then the flat \<^verbatim>\<open>response\<close> are
  looked at. Whenever the value chosen is missing or falsy, the serialized body is
  returned. The value returned is never the empty string, and \<^verbatim>\<open>{"content":"ok"}\<close>
  yields \<^verbatim>\<open>ok\<close>.
\<close>

theorem callCustomLLM_text_order:
  assumes "data \<noteq> JNull"
  shows "(\<exists>v. extract_text data = Inr v \<and> v \<noteq> JStr [])
    \<and> (truthy_opt (field data ''choices'') \<and> truthy_opt (item0 (the (field data ''choices'')))
         \<and> truthy_opt (field (the (item0 (the (field data ''choices'')))) ''message'') \<longrightarrow>
        extract_text data =
          Inr (if truthy_opt (field (the (field (the (item0 (the (field data ''choices'')))) ''message'')) ''content'')
               then the (field (the (field (the (item0 (the (field data ''choices'')))) ''message'')) ''content'')
               else JStr (stringify data)))
    \<and> (truthy_opt (field data ''choices'') \<and> truthy_opt (item0 (the (field data ''choices'')))
         \<and> \<not> truthy_opt (field (the (item0 (the (field data ''choices'')))) ''message'') \<longrightarrow>
        extract_text data =
          Inr (if truthy_opt (field (the (item0 (the (field data ''choices'')))) ''text'')
               then the (field (the (item0 (the (field data ''choices'')))) ''text'')
               else JStr (stringify data)))
    \<and> (\<not> (truthy_opt (field data ''choices'') \<and> truthy_opt (item0 (the (field data ''choices'')))) \<longrightarrow>
        extract_text data =
          Inr (if truthy_opt (field data ''content'') then the (field data ''content'')
               else if truthy_opt (field data ''response'') then the (field data ''response'')
               else JStr (stringify data)))
    \<and> extract_text (JObj [(''content'', JStr ''ok'')]) = Inr (JStr ''ok'')
    \<and> (callCustomLLM parse fetch settings prompt sys onStream = (Inr text, reqs, deltas) \<longrightarrow>
         text \<noteq> JStr [])"
proof -
  have "text \<noteq> JStr []"
    if "callCustomLLM parse fetch settings prompt sys onStream = (Inr text, reqs, deltas)"
    using that
    by (auto simp: callCustomLLM_def Let_def extract_text_nonempty
             split: if_splits option.splits sum.splits)
  then show ?thesis
    using assms
    by (auto simp: extract_text_def pick_text_def Let_def stringify_nonempty truthy_opt_not_empty)
qed

theorem callCustomLLM_text_order_witness:
  "JObj [(''choices'', JArr [JObj [(''message'', JObj [(''content'', JStr ''hi'')]), (''text'', JStr ''t'')]]),
         (''content'', JStr ''c'')] \<noteq> JNull
   \<and> extract_text (JObj [(''choices'', JArr [JObj [(''message'', JObj [(''content'', JStr ''hi'')]), (''text'', JStr ''t'')]]),
         (''content'', JStr ''c'')]) = Inr (JStr ''hi'')
   \<and> extract_text (JObj [(''choices'', JArr [JObj [(''text'', JStr ''t'')]]), (''content'', JStr ''c'')])
       = Inr (JStr ''t'')
   \<and> extract_text (JObj [(''response'', JStr ''r'')]) = Inr (JStr ''r'')"
  using callCustomLLM_text_order
      [of "JObj [(''choices'', JArr [JObj [(''message'', JObj [(''content'', JStr ''hi'')]), (''text'', JStr ''t'')]]),
         (''content'', JStr ''c'')]"]
    callCustomLLM_text_order
      [of "JObj [(''choices'', JArr [JObj [(''text'', JStr ''t'')]]), (''content'', JStr ''c'')]"]
    callCustomLLM_text_order [of "JObj [(''response'', JStr ''r'')]"]
  by simp

text \<open>
  C6 as the specification states it fails: a body with an empty \<^verbatim>\<open>choices[0]\<close> and a
  flat \<^verbatim>\<open>content\<close> matches the third shape of the list, yet the serialized body is
  returned.
\<close>

theorem callCustomLLM_flat_content_counterexample:
  "fst (callCustomLLM JSON_parse
         (\<lambda>r. Inr \<lparr>ok = True, status = 200, statusText = ''OK'',
                    body_text = ''{\"choices\":[{}],\"content\":\"ok\"}'',
                    json_error = Error ''Unexpected end of JSON input''\<rparr>)
         \<lparr>provider = ''custom'', apiKey = ''k'', modelName = ''m'', baseUrl = Some ''http://h/v1/'',
          language = ''en'', customConfig = None, activeBackendConfigId = None,
          usePythonBackend = False, pythonBackendUrl = []\<rparr> ''hi'' ''sys'' True)
     = Inr (JStr ''{\"choices\":[{}],\"content\":\"ok\"}'')
   \<and> fst (callCustomLLM JSON_parse
         (\<lambda>r. Inr \<lparr>ok = True, status = 200, statusText = ''OK'',
                    body_text = ''{\"choices\":[{}],\"content\":\"ok\"}'',
                    json_error = Error ''Unexpected end of JSON input''\<rparr>)
         \<lparr>provider = ''custom'', apiKey = ''k'', modelName = ''m'', baseUrl = Some ''http://h/v1/'',
          language = ''en'', customConfig = None, activeBackendConfigId = None,
          usePythonBackend = False, pythonBackendUrl = []\<rparr> ''hi'' ''sys'' True)
     \<noteq> Inr (JStr ''ok'')"
  by code_simp

theorem callCustomLLM_template_errors_witness:
  "callCustomLLM JSON_parse (\<lambda>r. Inr \<lparr>ok = True, status = 200, statusText = ''OK'', body_text = ''{}'',
                  json_error = Error ''Unexpected end of JSON input''\<rparr>)
     \<lparr>provider = ''custom'', apiKey = ''k'', modelName = ''m'', baseUrl = Some ''http://h/v1/'',
      language = ''en'',
      customConfig = Some \<lparr>endpoint = None, headers = Some ''{\"Authorization\":$apiKey}'', body = None\<rparr>,
      activeBackendConfigId = None, usePythonBackend = False, pythonBackendUrl = []\<rparr> ''hi'' ''sys'' True
    = (Inl (Error ''Invalid Headers Configuration''), [], [])
   \<and> callCustomLLM JSON_parse (\<lambda>r. Inr \<lparr>ok = True, status = 200, statusText = ''OK'', body_text = ''{}'',
                  json_error = Error ''Unexpected end of JSON input''\<rparr>)
     \<lparr>provider = ''custom'', apiKey = ''k'', modelName = ''m'', baseUrl = Some ''http://h/v1/'',
      language = ''en'',
      customConfig = Some \<lparr>endpoint = None, headers = None, body = Some ''{\"model\":$model}''\<rparr>,
      activeBackendConfigId = None, usePythonBackend = False, pythonBackendUrl = []\<rparr> ''hi'' ''sys'' True
    = (Inl (Error ''Invalid Body Template JSON''), [], [])"
proof -
  let ?f = "\<lambda>r :: http_request. (Inr \<lparr>ok = True, status = 200, statusText = ''OK'', body_text = ''{}'',
                  json_error = Error ''Unexpected end of JSON input''\<rparr>
              :: js_error + http_response)"
  let ?s1 = "\<lparr>provider = ''custom'', apiKey = ''k'', modelName = ''m'', baseUrl = Some ''http://h/v1/'',
      language = ''en'',
      customConfig = Some \<lparr>endpoint = None, headers = Some ''{\"Authorization\":$apiKey}'', body = None\<rparr>,
      activeBackendConfigId = None, usePythonBackend = False, pythonBackendUrl = []\<rparr>"
  let ?s2 = "\<lparr>provider = ''custom'', apiKey = ''k'', modelName = ''m'', baseUrl = Some ''http://h/v1/'',
      language = ''en'',
      customConfig = Some \<lparr>endpoint = None, headers = None, body = Some ''{\"model\":$model}''\<rparr>,
      activeBackendConfigId = None, usePythonBackend = False, pythonBackendUrl = []\<rparr>"
  have b1: "nonempty (baseUrl ?s1)" and b2: "nonempty (baseUrl ?s2)"
    by (simp_all add: nonempty_def)
  have h1: "JSON_parse (resolveTemplate (headersTpl ?s1) (variables ?s1 ''hi'' ''sys'')) = None"
    by code_simp
  have h2: "JSON_parse (resolveTemplate (headersTpl ?s2) (variables ?s2 ''hi'' ''sys'')) \<noteq> None"
    by code_simp
  have h3: "JSON_parse (resolveTemplate (bodyTpl ?s2) (variables ?s2 ''hi'' ''sys'')) = None"
    by code_simp
  from callCustomLLM_template_errors [OF b1, of JSON_parse "''hi''" "''sys''" ?f True] h1
    callCustomLLM_template_errors [OF b2, of JSON_parse "''hi''" "''sys''" ?f True] h2 h3
  show ?thesis by blast
qed

subsection \<open>Line buffering of the event stream\<close>

lemma split_on_nonempty: "split_on c s \<noteq> []"
  by (induction s) (auto split: list.splits)

lemma split_on_append:
  "split_on c (a @ b) = butlast (split_on c a) @ split_on c (last (split_on c a) @ b)"
proof (induction a)
  case Nil
  show ?case by simp
next
  case (Cons x xs)
  obtain y ys where S: "split_on c xs = y # ys"
    using split_on_nonempty [of c xs] by (cases "split_on c xs") auto
  obtain z zs where T: "split_on c (last (split_on c xs) @ b) = z # zs"
    using split_on_nonempty [of c "last (split_on c xs) @ b"]
    by (cases "split_on c (last (split_on c xs) @ b)") auto
  show ?case
  proof (cases "x = c")
    case True
    then show ?thesis using Cons S by simp
  next
    case False
    show ?thesis
    proof (cases ys)
      case Nil
      then show ?thesis using Cons S False by simp
    next
      case (Cons y' ys')
      then show ?thesis using Cons.IH S False T by simp
    qed
  qed
qed

lemma decode_append:
  "decode step d (a @ b) =
     (case decode step d a of (d1, t1) \<Rightarrow> (case decode step d1 b of (d2, t2) \<Rightarrow> (d2, t1 @ t2)))"
  by (induction a arbitrary: d) (auto split: prod.splits)

lemma split_on_absent: "c \<notin> set s \<Longrightarrow> split_on c s = [s]"
  by (induction s) auto

lemma split_on_last_clean: "c \<notin> set (last (split_on c s))"
proof (induction s)
  case Nil
  show ?case by simp
next
  case (Cons x xs)
  obtain y ys where S: "split_on c xs = y # ys"
    using split_on_nonempty [of c xs] by (cases "split_on c xs") auto
  show ?case using Cons S by (cases ys) auto
qed

lemma read_loop_whole:
  assumes "CHR 0x0A \<notin> set buffer"
  shows "read_loop step parse onStream onStatus (d, buffer, fullText, calls) chunks =
     (case decode step d (concat chunks) of
        (d', txt) \<Rightarrow>
          (d', last (split_on (CHR 0x0A) (buffer @ txt)),
           foldl (process_line parse onStream onStatus) (fullText, calls)
             (butlast (split_on (CHR 0x0A) (buffer @ txt)))))"
  using assms
proof (induction chunks arbitrary: d buffer fullText calls)
  case Nil
  then show ?case by (simp add: split_on_absent)
next
  case (Cons chunk rest)
  obtain d1 t1 where D1: "decode step d chunk = (d1, t1)"
    by (cases "decode step d chunk")
  obtain d2 t2 where D2: "decode step d1 (concat rest) = (d2, t2)"
    by (cases "decode step d1 (concat rest)")
  let ?P = "process_line parse onStream onStatus"
  let ?L1 = "split_on (CHR 0x0A) (buffer @ t1)"
  let ?L2 = "split_on (CHR 0x0A) (last ?L1 @ t2)"
  have ne1: "?L1 \<noteq> []" and ne2: "?L2 \<noteq> []"
    by (rule split_on_nonempty)+
  have clean: "CHR 0x0A \<notin> set (last ?L1)"
    by (rule split_on_last_clean)
  have whole: "split_on (CHR 0x0A) (buffer @ t1 @ t2) = butlast ?L1 @ ?L2"
    using split_on_append [of "CHR 0x0A" "buffer @ t1" t2] by simp
  obtain f1 c1 where F1: "foldl ?P (fullText, calls) (butlast ?L1) = (f1, c1)"
    by (cases "foldl ?P (fullText, calls) (butlast ?L1)")
  have "read_loop step parse onStream onStatus (d, buffer, fullText, calls) (chunk # rest)
      = read_loop step parse onStream onStatus (d1, last ?L1, f1, c1) rest"
    using ne1 by (simp add: D1 F1 Let_def)
  also have "\<dots> = (d2, last ?L2, foldl ?P (f1, c1) (butlast ?L2))"
    using Cons.IH [OF clean, of d1 f1 c1] by (simp add: D2)
  also have "\<dots> = (d2, last (split_on (CHR 0x0A) (buffer @ t1 @ t2)),
                    foldl ?P (fullText, calls) (butlast (split_on (CHR 0x0A) (buffer @ t1 @ t2))))"
    using ne2 by (simp add: whole butlast_append F1)
  finally show ?case
    by (simp add: decode_append D1 D2)
qed

lemma read_loop_one_chunk:
  "read_loop step parse onStream onStatus (d0, [], [], []) [concat chunks]
     = read_loop step parse onStream onStatus (d0, [], [], []) chunks"
  by (simp only: read_loop_whole [of "[]", simplified] concat.simps append_Nil2)

text \<open>
  C1. For every decoder, every parser and every backend response, the adapter makes the
  same calls to \<^verbatim>\<open>onStream\<close> and \<^verbatim>\<open>onStatus\<close> in the same order, sends the same request
  and returns the same text (or fails with the same error) whether the body arrives in
  the chunks of the response or in one chunk. The second conjunct says what that common
  result is: the lines handled are exactly the complete lines of the decoded body, each
  once, in order, and the buffer left is the text after the last line feed.
\<close>

theorem callPythonBackendStream_chunking:
  "callPythonBackendStream step d0 parse fetch settings prompt workflow sessionId errorLog
       onStream onStatus
     = callPythonBackendStream step d0 parse (fetch_in_one_chunk fetch) settings prompt workflow
         sessionId errorLog onStream onStatus
   \<and> read_loop step parse onStream onStatus (d0, [], [], []) chunks
     = (case decode step d0 (concat chunks) of
          (d', txt) \<Rightarrow>
            (d', last (split_on (CHR 0x0A) txt),
             foldl (process_line parse onStream onStatus) ([], [])
               (butlast (split_on (CHR 0x0A) txt))))"
proof -
  have "callPythonBackendStream step d0 parse fetch settings prompt workflow sessionId errorLog
       onStream onStatus
     = callPythonBackendStream step d0 parse (fetch_in_one_chunk fetch) settings prompt workflow
         sessionId errorLog onStream onStatus"
    unfolding callPythonBackendStream_def fetch_in_one_chunk_def in_one_chunk_def Let_def
    by (auto simp: read_loop_one_chunk simp del: read_loop.simps
             split: sum.splits option.splits prod.splits)
  then show ?thesis
    using read_loop_whole [of "[]" step parse onStream onStatus d0 "[]" "[]" chunks] by simp
qed

text \<open>
  Scenario B with the payload cut inside two of its lines: the accumulated text is
  \<^verbatim>\<open>Hello\<close> and \<^verbatim>\<open>onStream\<close> is called twice. The bytes are characters and the decoder
  emits each byte as it is.
\<close>

theorem callPythonBackendStream_chunking_witness:
  "callPythonBackendStream (\<lambda>d b. (d, [b])) () JSON_parse
     (\<lambda>r. Inr \<lparr>s_ok = True, s_status = 200, s_statusText = ''OK'',
                s_body = Some ([''data: {\"type\":\"content\",\"chu'',
                                ''nk\":\"Hel\"}'' @ [CHR 0x0A] @ ''data: {\"type\":\"content\",\"chunk\":\"lo\"}''
                                  @ [CHR 0x0A] @ ''da'',
                                ''ta: [DONE]'' @ [CHR 0x0A]], None)\<rparr>)
     \<lparr>provider = ''google'', apiKey = [], modelName = ''m'', baseUrl = None,
      language = ''en'', customConfig = None, activeBackendConfigId = None,
      usePythonBackend = True, pythonBackendUrl = ''http://h/''\<rparr>
     ''hi'' JNull ''s1'' None True True
   = (Inr (''Hello'', []),
      [\<lparr>req_url = ''http://h/api/chat/stream'', req_method = ''POST'',
        req_headers = JObj [(''Content-Type'', JStr ''application/json'')],
        req_body = ''{\"message\":\"hi\",\"workflow\":null,\"session_id\":\"s1\",\"error_log\":null,\"language\":\"en\"}''\<rparr>],
      [Delta (JStr ''Hel''), Delta (JStr ''lo'')])"
proof -
  let ?f = "\<lambda>r :: http_request. (Inr \<lparr>s_ok = True, s_status = 200, s_statusText = ''OK'',
                s_body = Some ([''data: {\"type\":\"content\",\"chu'',
                                ''nk\":\"Hel\"}'' @ [CHR 0x0A] @ ''data: {\"type\":\"content\",\"chunk\":\"lo\"}''
                                  @ [CHR 0x0A] @ ''da'',
                                ''ta: [DONE]'' @ [CHR 0x0A]], None)\<rparr> :: js_error + char stream_response)"
  let ?s = "\<lparr>provider = ''google'', apiKey = [], modelName = ''m'', baseUrl = None,
      language = ''en'', customConfig = None, activeBackendConfigId = None,
      usePythonBackend = True, pythonBackendUrl = ''http://h/''\<rparr>"
  have "callPythonBackendStream (\<lambda>d b. (d, [b])) () JSON_parse (fetch_in_one_chunk ?f) ?s
          ''hi'' JNull ''s1'' None True True
      = (Inr (''Hello'', []),
      [\<lparr>req_url = ''http://h/api/chat/stream'', req_method = ''POST'',
        req_headers = JObj [(''Content-Type'', JStr ''application/json'')],
        req_body = ''{\"message\":\"hi\",\"workflow\":null,\"session_id\":\"s1\",\"error_log\":null,\"language\":\"en\"}''\<rparr>],
      [Delta (JStr ''Hel''), Delta (JStr ''lo'')])"
    by code_simp
  with callPythonBackendStream_chunking
         [of "\<lambda>d b. (d, [b])" "()" JSON_parse ?f ?s "''hi''" JNull "''s1''" None True True]
  show ?thesis by simp
qed

subsection \<open>Structured extraction and the entry point\<close>

lemma search_sound:
  "search m lead s = Some (l, r) \<Longrightarrow> \<exists>a b. s = a @ b \<and> l = lead @ a \<and> m b = Some r"
proof (induction s arbitrary: lead)
  case Nil
  then show ?case by (auto split: option.splits)
next
  case (Cons c cs)
  show ?case
  proof (cases "m (c # cs)")
    case (Some r')
    with Cons.prems have "l = lead" "r' = r" by auto
    with Some show ?thesis by (intro exI [of _ "[]"] exI [of _ "c # cs"]) simp
  next
    case None
    with Cons.prems have "search m (lead @ [c]) cs = Some (l, r)" by simp
    from Cons.IH [OF this] obtain a b where "cs = a @ b" "l = (lead @ [c]) @ a" "m b = Some r"
      by blast
    then show ?thesis by (intro exI [of _ "c # a"] exI [of _ b]) simp
  qed
qed

lemma startsWith_split: "startsWith s p \<Longrightarrow> s = p @ drop (length p) s"
  by (metis append_take_drop_id startsWith_def)

lemma match_actions_sound:
  assumes "match_actions b = Some (cap, trail)"
  shows "\<exists>ws. b = ''SUGGESTED_ACTIONS:'' @ ws @ CHR ''['' # cap @ CHR '']'' # trail
            \<and> list_all is_ws ws \<and> CHR '']'' \<notin> set cap \<and> \<not> list_ex is_lt cap"
proof -
  let ?r = "drop (length ''SUGGESTED_ACTIONS:'') b"
  let ?r1 = "dropWhile is_ws ?r"
  let ?P = "\<lambda>c. c \<noteq> CHR '']'' \<and> \<not> is_lt c"
  from assms have sw: "startsWith b ''SUGGESTED_ACTIONS:''"
    by (auto simp: match_actions_def split: if_splits)
  from assms sw have r1: "?r1 \<noteq> []" "hd ?r1 = CHR ''[''"
    by (auto simp: match_actions_def Let_def split: if_splits)
  from assms sw r1 have rest: "dropWhile ?P (tl ?r1) \<noteq> []" "hd (dropWhile ?P (tl ?r1)) = CHR '']''"
    and cap: "cap = takeWhile ?P (tl ?r1)" and trail: "trail = tl (dropWhile ?P (tl ?r1))"
    by (auto simp: match_actions_def Let_def split: if_splits)
  have b: "b = ''SUGGESTED_ACTIONS:'' @ ?r"
    by (rule startsWith_split [OF sw])
  have r: "?r = takeWhile is_ws ?r @ ?r1" by simp
  have r1': "?r1 = CHR ''['' # tl ?r1" using r1 by (cases ?r1) auto
  have t: "tl ?r1 = cap @ dropWhile ?P (tl ?r1)" unfolding cap by simp
  have d: "dropWhile ?P (tl ?r1) = CHR '']'' # trail"
    using rest trail by (cases "dropWhile ?P (tl ?r1)") auto
  have "b = ''SUGGESTED_ACTIONS:'' @ takeWhile is_ws ?r @ CHR ''['' # cap @ CHR '']'' # trail"
    using b r r1' t d by metis
  moreover have "list_all is_ws (takeWhile is_ws ?r)"
    by (simp add: list_all_iff) (meson set_takeWhileD)
  moreover have "CHR '']'' \<notin> set cap" "\<not> list_ex is_lt cap"
    unfolding cap by (auto simp: list_ex_iff dest: set_takeWhileD)
  ultimately show ?thesis by blast
qed

lemma map_issues_ok:
  "JNull \<notin> set vs \<Longrightarrow> \<exists>is. map_issues now idx vs = Inr is \<and> length is = length vs"
proof (induction vs arbitrary: idx)
  case Nil
  show ?case by simp
next
  case (Cons v vs)
  then obtain iss where "map_issues now (Suc idx) vs = Inr iss" "length iss = length vs"
    by fastforce
  with Cons.prems show ?case by (auto simp: make_issue_def)
qed

lemma map_issues_null:
  "JNull \<in> set vs \<Longrightarrow> \<exists>e. map_issues now idx vs = Inl e"
proof (induction vs arbitrary: idx)
  case Nil
  then show ?case by simp
next
  case (Cons v vs)
  show ?case
  proof (cases "v = JNull")
    case True
    then show ?thesis by (simp add: make_issue_def)
  next
    case False
    with Cons.prems have "JNull \<in> set vs" by simp
    from Cons.IH [OF this] obtain e where "map_issues now (Suc idx) vs = Inl e" by blast
    then show ?thesis by (simp add: make_issue_def False)
  qed
qed

text \<open>
  C5 (as the code has it). The issues and the related questions are each read from what
  their own pattern captures: the text from the first opening bracket after the label to
  the first closing bracket after it, cleaned by \<^verbatim>\<open>cleanJsonString\<close>. When the issues
  capture parses as a non-empty array without \<^verbatim>\<open>null\<close> elements, the issues list has one
  entry for each element, and when the related-questions pattern does not match, or what
  it captures does not parse, the related-questions list is empty and nothing is thrown.
  The other way round, when the related-questions capture parses, the related questions
  are the parsed value, and when the issues pattern does not match, or its capture does
  not parse or parses to an array with a \<^verbatim>\<open>null\<close> element, the issues list is empty and
  nothing is thrown. And when the actions pattern matches with a non-empty group, the
  suggested actions are the items of that group, whatever the parser makes of the other
  two captures.
\<close>

theorem parse_response_issues_related:
  "(search (match_tagged ''ISSUES_JSON:'') [] txt = Some (lead, rawIssues, trail)
      \<and> p_parse pf (cleanJsonString rawIssues) = Some (JArr vs)
      \<and> vs \<noteq> [] \<and> JNull \<notin> set vs
      \<and> (search (match_tagged ''RELATED_QUESTIONS:'') [] txt = None
          \<or> (\<exists>l c t. search (match_tagged ''RELATED_QUESTIONS:'') [] txt = Some (l, c, t)
                      \<and> p_parse pf (cleanJsonString c) = None))
    \<longrightarrow> (\<exists>r iss. parse_response pf lang (JStr txt) sources = Inr r
           \<and> issues r = Some iss \<and> iss \<noteq> [] \<and> length iss = length vs
           \<and> relatedQuestions r = Some (JArr [])))
   \<and> (search (match_tagged ''RELATED_QUESTIONS:'') [] txt = Some (lead', rawRelated, trail')
      \<and> p_parse pf (cleanJsonString rawRelated) = Some v
      \<and> (search (match_tagged ''ISSUES_JSON:'') [] txt = None
          \<or> (\<exists>l c t. search (match_tagged ''ISSUES_JSON:'') [] txt = Some (l, c, t)
                \<and> (p_parse pf (cleanJsonString c) = None
                    \<or> (\<exists>ws. p_parse pf (cleanJsonString c) = Some (JArr ws) \<and> JNull \<in> set ws))))
    \<longrightarrow> (\<exists>r. parse_response pf lang (JStr txt) sources = Inr r
           \<and> relatedQuestions r = Some v \<and> issues r = Some []))
   \<and> (search match_actions [] txt = Some (alead, acap, atrail) \<and> acap \<noteq> []
    \<longrightarrow> (\<exists>r. parse_response pf lang (JStr txt) sources = Inr r
           \<and> suggestedActions r
               = map (\<lambda>item. filter (\<lambda>c. c \<noteq> CHR 0x27 \<and> c \<noteq> CHR 0x22) (trim item))
                   (split_on (CHR '','') acap)))"
proof (intro conjI impI)
  assume a: "search (match_tagged ''ISSUES_JSON:'') [] txt = Some (lead, rawIssues, trail)
      \<and> p_parse pf (cleanJsonString rawIssues) = Some (JArr vs)
      \<and> vs \<noteq> [] \<and> JNull \<notin> set vs
      \<and> (search (match_tagged ''RELATED_QUESTIONS:'') [] txt = None
          \<or> (\<exists>l c t. search (match_tagged ''RELATED_QUESTIONS:'') [] txt = Some (l, c, t)
                      \<and> p_parse pf (cleanJsonString c) = None))"
  then obtain iss where i: "map_issues (p_now pf) 0 vs = Inr iss" "length iss = length vs"
    using map_issues_ok [of vs "p_now pf" 0] by blast
  have "extract_issues (p_parse pf) (p_now pf) txt = iss"
    using a by (simp add: extract_issues_def i)
  moreover have "extract_related (p_parse pf) txt = JArr []"
    using a by (auto simp: extract_related_def)
  moreover have "iss \<noteq> []" using i(2) a by auto
  ultimately show "\<exists>r iss. parse_response pf lang (JStr txt) sources = Inr r
           \<and> issues r = Some iss \<and> iss \<noteq> [] \<and> length iss = length vs
           \<and> relatedQuestions r = Some (JArr [])"
    by (simp add: parse_response_def i(2))
next
  assume b: "search (match_tagged ''RELATED_QUESTIONS:'') [] txt = Some (lead', rawRelated, trail')
      \<and> p_parse pf (cleanJsonString rawRelated) = Some v
      \<and> (search (match_tagged ''ISSUES_JSON:'') [] txt = None
          \<or> (\<exists>l c t. search (match_tagged ''ISSUES_JSON:'') [] txt = Some (l, c, t)
                \<and> (p_parse pf (cleanJsonString c) = None
                    \<or> (\<exists>ws. p_parse pf (cleanJsonString c) = Some (JArr ws) \<and> JNull \<in> set ws))))"
  have "extract_related (p_parse pf) txt = v"
    using b by (simp add: extract_related_def)
  moreover have "extract_issues (p_parse pf) (p_now pf) txt = []"
  proof -
    let ?si = "search (match_tagged ''ISSUES_JSON:'') [] txt"
    from b have "?si = None
          \<or> (\<exists>l c t. ?si = Some (l, c, t)
                \<and> (p_parse pf (cleanJsonString c) = None
                    \<or> (\<exists>ws. p_parse pf (cleanJsonString c) = Some (JArr ws) \<and> JNull \<in> set ws)))"
      by (rule conjunct2 [THEN conjunct2])
    then show ?thesis
    proof (elim disjE exE conjE)
      assume "?si = None"
      then show ?thesis by (simp add: extract_issues_def)
    next
      fix l c t
      assume "?si = Some (l, c, t)" "p_parse pf (cleanJsonString c) = None"
      then show ?thesis by (simp add: extract_issues_def)
    next
      fix l c t ws
      assume s: "?si = Some (l, c, t)" "p_parse pf (cleanJsonString c) = Some (JArr ws)"
        and n: "JNull \<in> set ws"
      from map_issues_null [OF n] obtain e where "map_issues (p_now pf) 0 ws = Inl e"
        by blast
      with s show ?thesis by (simp add: extract_issues_def)
    qed
  qed
  ultimately show "\<exists>r. parse_response pf lang (JStr txt) sources = Inr r
           \<and> relatedQuestions r = Some v \<and> issues r = Some []"
    by (simp add: parse_response_def)
next
  assume c: "search match_actions [] txt = Some (alead, acap, atrail) \<and> acap \<noteq> []"
  have "extract_actions txt
          = map (\<lambda>item. filter (\<lambda>c. c \<noteq> CHR 0x27 \<and> c \<noteq> CHR 0x22) (trim item))
              (split_on (CHR '','') acap)"
    using c by (simp add: extract_actions_def)
  moreover have "split_on (CHR '','') acap \<noteq> []"
    by (rule split_on_nonempty)
  ultimately show "\<exists>r. parse_response pf lang (JStr txt) sources = Inr r
           \<and> suggestedActions r
               = map (\<lambda>item. filter (\<lambda>c. c \<noteq> CHR 0x27 \<and> c \<noteq> CHR 0x22) (trim item))
                   (split_on (CHR '','') acap)"
    by (simp add: parse_response_def)
qed

theorem parse_response_issues_related_witness:
  "(\<exists>r iss. parse_response
       \<lparr>p_t = (\<lambda>lang key. key), p_now = (\<lambda>i. 0), p_parse = JSON_parse,
        p_fetch = (\<lambda>r. Inl (Error ''Failed to fetch'')),
        p_fetch_stream = (\<lambda>r. Inl (Error ''Failed to fetch'')),
        p_sdk = ([], None), p_env_key = None, p_step = (\<lambda>d b. (d, [b])), p_d0 = ()\<rparr>
       ''en''
       (JStr ''Found. ISSUES_JSON: [{\"nodeId\": 10, \"message\": \"x\"}] RELATED_QUESTIONS: [\"Q1\", \"Q'')
       [] = Inr r
     \<and> issues r = Some iss \<and> iss \<noteq> []
     \<and> length iss = length [JObj [(''nodeId'', JNum 10 0), (''message'', JStr ''x'')]]
     \<and> relatedQuestions r = Some (JArr []))
   \<and> (\<exists>r. parse_response
       \<lparr>p_t = (\<lambda>lang key. key), p_now = (\<lambda>i. 0), p_parse = JSON_parse,
        p_fetch = (\<lambda>r. Inl (Error ''Failed to fetch'')),
        p_fetch_stream = (\<lambda>r. Inl (Error ''Failed to fetch'')),
        p_sdk = ([], None), p_env_key = None, p_step = (\<lambda>d b. (d, [b])), p_d0 = ()\<rparr>
       ''en''
       (JStr ''Found. ISSUES_JSON: [{\"nodeId\": 10, ] RELATED_QUESTIONS: [\"Q1\", \"Q2\"]'')
       [] = Inr r
     \<and> relatedQuestions r = Some (JArr [JStr ''Q1'', JStr ''Q2'']) \<and> issues r = Some [])
   \<and> (\<exists>r. parse_response
       \<lparr>p_t = (\<lambda>lang key. key), p_now = (\<lambda>i. 0), p_parse = JSON_parse,
        p_fetch = (\<lambda>r. Inl (Error ''Failed to fetch'')),
        p_fetch_stream = (\<lambda>r. Inl (Error ''Failed to fetch'')),
        p_sdk = ([], None), p_env_key = None, p_step = (\<lambda>d b. (d, [b])), p_d0 = ()\<rparr>
       ''en''
       (JStr ''ISSUES_JSON: [{bad] SUGGESTED_ACTIONS: [Fix it, Retry] RELATED_QUESTIONS: [\"Q'')
       [] = Inr r
     \<and> suggestedActions r = [''Fix it'', ''Retry''])"
proof -
  let ?pf = "\<lparr>p_t = (\<lambda>lang key. key), p_now = (\<lambda>i. 0), p_parse = JSON_parse,
        p_fetch = (\<lambda>r. Inl (Error ''Failed to fetch'')),
        p_fetch_stream = (\<lambda>r. Inl (Error ''Failed to fetch'')),
        p_sdk = ([], None), p_env_key = None, p_step = (\<lambda>d b. (d, [b])), p_d0 = ()\<rparr>
        :: (unit, char) platform"
  let ?txt = "''Found. ISSUES_JSON: [{\"nodeId\": 10, \"message\": \"x\"}] RELATED_QUESTIONS: [\"Q1\", \"Q''"
  let ?txt2 = "''Found. ISSUES_JSON: [{\"nodeId\": 10, ] RELATED_QUESTIONS: [\"Q1\", \"Q2\"]''"
  have 1: "search (match_tagged ''ISSUES_JSON:'') [] ?txt
         = Some (''Found. '', ''[{\"nodeId\": 10, \"message\": \"x\"}]'',
                 '' RELATED_QUESTIONS: [\"Q1\", \"Q'')"
    by code_simp
  have 2: "p_parse ?pf (cleanJsonString ''[{\"nodeId\": 10, \"message\": \"x\"}]'')
         = Some (JArr [JObj [(''nodeId'', JNum 10 0), (''message'', JStr ''x'')]])"
    by code_simp
  have 3: "search (match_tagged ''RELATED_QUESTIONS:'') [] ?txt = None"
    by code_simp
  have 4: "search (match_tagged ''RELATED_QUESTIONS:'') [] ?txt2
         = Some (''Found. ISSUES_JSON: [{\"nodeId\": 10, ] '', ''[\"Q1\", \"Q2\"]'', [])"
    by code_simp
  have 5: "p_parse ?pf (cleanJsonString ''[\"Q1\", \"Q2\"]'') = Some (JArr [JStr ''Q1'', JStr ''Q2''])"
    by code_simp
  have 6: "search (match_tagged ''ISSUES_JSON:'') [] ?txt2
         = Some (''Found. '', ''[{\"nodeId\": 10, ]'', '' RELATED_QUESTIONS: [\"Q1\", \"Q2\"]'')"
    by code_simp
  have 7: "p_parse ?pf (cleanJsonString ''[{\"nodeId\": 10, ]'') = None"
    by code_simp
  have a: "\<exists>r iss. parse_response ?pf ''en'' (JStr ?txt) [] = Inr r
     \<and> issues r = Some iss \<and> iss \<noteq> []
     \<and> length iss = length [JObj [(''nodeId'', JNum 10 0), (''message'', JStr ''x'')]]
     \<and> relatedQuestions r = Some (JArr [])"
    using parse_response_issues_related
            [of ?txt "''Found. ''" "''[{\"nodeId\": 10, \"message\": \"x\"}]''"
                "'' RELATED_QUESTIONS: [\"Q1\", \"Q''" ?pf
                "[JObj [(''nodeId'', JNum 10 0), (''message'', JStr ''x'')]]" "''en''" "[]"]
          1 2 3
    by simp
  have b: "\<exists>r. parse_response ?pf ''en'' (JStr ?txt2) [] = Inr r
     \<and> relatedQuestions r = Some (JArr [JStr ''Q1'', JStr ''Q2'']) \<and> issues r = Some []"
    using parse_response_issues_related
            [of ?txt2 _ _ _ ?pf _ "''en''" "[]" "''Found. ISSUES_JSON: [{\"nodeId\": 10, ] ''"
                "''[\"Q1\", \"Q2\"]''" "[]" "JArr [JStr ''Q1'', JStr ''Q2'']"]
          4 5 6 7
    by simp
  let ?txt3 = "''ISSUES_JSON: [{bad] SUGGESTED_ACTIONS: [Fix it, Retry] RELATED_QUESTIONS: [\"Q''"
  have 8: "search match_actions [] ?txt3
         = Some (''ISSUES_JSON: [{bad] '', ''Fix it, Retry'', '' RELATED_QUESTIONS: [\"Q'')"
    by code_simp
  have 9: "map (\<lambda>item. filter (\<lambda>c. c \<noteq> CHR 0x27 \<and> c \<noteq> CHR 0x22) (trim item))
               (split_on (CHR '','') ''Fix it, Retry'') = [''Fix it'', ''Retry'']"
    by code_simp
  have c: "\<exists>r. parse_response ?pf ''en'' (JStr ?txt3) [] = Inr r
     \<and> suggestedActions r = [''Fix it'', ''Retry'']"
    using parse_response_issues_related
            [of ?txt3 _ _ _ ?pf _ "''en''" "[]" _ _ _ _ "''ISSUES_JSON: [{bad] ''"
                "''Fix it, Retry''" "'' RELATED_QUESTIONS: [\"Q''"]
          8 9
    by simp
  from a b c show ?thesis by blast
qed

text \<open>
  C5 as the specification states it fails. The first text carries a valid, non-empty
  issues array (the first conjunct parses it) and a truncated related-questions tag, yet
  the issues list is empty, because the captured text ends at the bracket inside the
  message. In the second text a malformed issues region is wrapped in a \<^verbatim>\<open>json\<close> fence and
  stands before a valid workflow block: the workflow pattern takes the first \<^verbatim>\<open>json\<close>
  fence of the text, which is the one of the issues region, so no workflow is extracted,
  while the same workflow block alone is.
\<close>

theorem parse_response_regions_counterexample:
  "JSON_parse ''[{\"message\":\"see [a]\"}]'' = Some (JArr [JObj [(''message'', JStr ''see [a]'')]])
   \<and> extract_issues JSON_parse (\<lambda>i. 0)
        ''ISSUES_JSON: [{\"message\":\"see [a]\"}] RELATED_QUESTIONS: [\"Q1\", \"Q'' = []
   \<and> extract_related JSON_parse
        ''ISSUES_JSON: [{\"message\":\"see [a]\"}] RELATED_QUESTIONS: [\"Q1\", \"Q'' = JArr []
   \<and> extract_workflow JSON_parse
        (''ISSUES_JSON: '' @ fence @ ''json [{bad] '' @ fence @ '' ''
           @ fence @ ''json {\"nodes\":[]} '' @ fence) = None
   \<and> extract_workflow JSON_parse (fence @ ''json {\"nodes\":[]} '' @ fence)
       = Some (JObj [(''nodes'', JArr [])])"
  by code_simp

text \<open>
  C8 (as the code has it). When the pattern matches with a non-empty group, the text is
  the label, white space, an opening bracket, the group without a closing bracket in
  it, and a closing bracket; the group is split at the commas, each item is trimmed, and
  then every single and double quote character of the item is removed, wherever it
  stands. No returned item contains a quote character.
\<close>

theorem extract_actions_items:
  assumes "search match_actions [] txt = Some (lead, cap, trail)" and "cap \<noteq> []"
  shows "(\<exists>ws. txt = lead @ ''SUGGESTED_ACTIONS:'' @ ws @ CHR ''['' # cap @ CHR '']'' # trail
              \<and> list_all is_ws ws \<and> CHR '']'' \<notin> set cap)
       \<and> extract_actions txt
           = map (\<lambda>item. filter (\<lambda>c. c \<noteq> CHR 0x27 \<and> c \<noteq> CHR 0x22) (trim item))
               (split_on (CHR '','') cap)
       \<and> list_all (\<lambda>a. CHR 0x27 \<notin> set a \<and> CHR 0x22 \<notin> set a) (extract_actions txt)"
proof -
  from search_sound [OF assms(1)] obtain a b where
    ab: "txt = a @ b" "lead = [] @ a" "match_actions b = Some (cap, trail)"
    by blast
  from match_actions_sound [OF ab(3)] obtain ws where
    "b = ''SUGGESTED_ACTIONS:'' @ ws @ CHR ''['' # cap @ CHR '']'' # trail"
    "list_all is_ws ws" "CHR '']'' \<notin> set cap"
    by blast
  with ab have 1: "\<exists>ws. txt = lead @ ''SUGGESTED_ACTIONS:'' @ ws @ CHR ''['' # cap @ CHR '']'' # trail
              \<and> list_all is_ws ws \<and> CHR '']'' \<notin> set cap"
    by auto
  have 2: "extract_actions txt
           = map (\<lambda>item. filter (\<lambda>c. c \<noteq> CHR 0x27 \<and> c \<noteq> CHR 0x22) (trim item))
               (split_on (CHR '','') cap)"
    using assms by (simp add: extract_actions_def)
  have 3: "list_all (\<lambda>a. CHR 0x27 \<notin> set a \<and> CHR 0x22 \<notin> set a) (extract_actions txt)"
    unfolding 2 by (simp add: list_all_iff)
  from 1 2 3 show ?thesis by blast
qed

theorem extract_actions_items_witness:
  "extract_actions ''Try. SUGGESTED_ACTIONS: [ \"Fix it\" , Retry] Bye''
     = [''Fix it'', ''Retry'']"
proof -
  have 1: "search match_actions [] ''Try. SUGGESTED_ACTIONS: [ \"Fix it\" , Retry] Bye''
         = Some (''Try. '', '' \"Fix it\" , Retry'', '' Bye'')"
    by code_simp
  have 2: "'' \"Fix it\" , Retry'' \<noteq> []" by simp
  have 3: "map (\<lambda>item. filter (\<lambda>c. c \<noteq> CHR 0x27 \<and> c \<noteq> CHR 0x22) (trim item))
               (split_on (CHR '','') '' \"Fix it\" , Retry'') = [''Fix it'', ''Retry'']"
    by code_simp
  from extract_actions_items [OF 1 2] 3 show ?thesis by simp
qed

text \<open>
  C8 as the specification states it fails: the apostrophe inside an item is removed too.
\<close>

theorem extract_actions_interior_counterexample:
  "extract_actions ''SUGGESTED_ACTIONS: [Don't stop, \"Retry\"]'' = [''Dont stop'', ''Retry'']
   \<and> extract_actions ''SUGGESTED_ACTIONS: [Don't stop, \"Retry\"]'' \<noteq> [''Don't stop'', ''Retry'']"
  by code_simp







subsection \<open>Promotion of the session identity\<close>












end
